theory Spec2Isabelle
  imports Complex_Main "HOL-Library.Multiset" "HOL-Library.Sublist" "HOL-Library.Log_Nat"
begin

section \<open>Numbers\<close>

text \<open>
  A JavaScript \<^verbatim>\<open>number\<close> is an IEEE 754 double: a finite value, given by the rational it
  denotes, or one of \<^verbatim>\<open>Infinity\<close>, \<^verbatim>\<open>-Infinity\<close> and \<^verbatim>\<open>NaN\<close>. The negative zero is not
  told from zero. A list length, an index or a timestamp in milliseconds is an integer.
\<close>

datatype number = Num rat | PosInfinity | NegInfinity | NaN

definition pow2 :: "int \<Rightarrow> rat" where
  "pow2 e = (if 0 \<le> e then 2 ^ nat e else 1 / 2 ^ nat (- e))"

text \<open>The integer part of the binary logarithm of a positive rational.\<close>

definition ilog2 :: "rat \<Rightarrow> int" where
  "ilog2 q = (if 1 \<le> q then bitlen \<lfloor>q\<rfloor> - 1 else - bitlen (\<lceil>1 / q\<rceil> - 1))"

definition round_half_even :: "rat \<Rightarrow> int" where
  "round_half_even q =
     (let f = \<lfloor>q\<rfloor>; r = q - of_int f
      in if r < 1 / 2 then f else if 1 / 2 < r then f + 1 else if even f then f else f + 1)"

text \<open>
  The double nearest to a rational, ties to the even significand: a significand \<open>m\<close> of
  53 bits at an exponent \<open>e\<close> not below \<open>-1074\<close>, the value being \<open>m * 2 ^ e\<close>, and an
  infinity when that reaches \<open>2 ^ 1024\<close>, which is when \<open>e\<close> exceeds 971 or is 971 with a
  significand rounded up to \<open>2 ^ 53\<close>.
\<close>

definition round64 :: "rat \<Rightarrow> number" where
  "round64 q =
     (if q = 0 then Num 0
      else (let e = max (ilog2 \<bar>q\<bar> - 52) (- 1074);
                m = round_half_even (q / pow2 e)
            in if 971 < e \<or> (e = 971 \<and> 2 ^ 53 \<le> \<bar>m\<bar>)
               then (if 0 < q then PosInfinity else NegInfinity)
               else Num (of_int m * pow2 e)))"

text \<open>The operator \<^verbatim>\<open>+\<close> on two numbers, as in \<^verbatim>\<open>a += b\<close>.\<close>

fun js_add :: "number \<Rightarrow> number \<Rightarrow> number" where
  "js_add (Num a) (Num b) = round64 (a + b)"
| "js_add NaN y = NaN"
| "js_add x NaN = NaN"
| "js_add PosInfinity NegInfinity = NaN"
| "js_add NegInfinity PosInfinity = NaN"
| "js_add PosInfinity y = PosInfinity"
| "js_add NegInfinity y = NegInfinity"
| "js_add x PosInfinity = PosInfinity"
| "js_add x NegInfinity = NegInfinity"


text \<open>A total that starts at \<^verbatim>\<open>0\<close> and takes the numbers of a list one after the other.\<close>

definition js_sum :: "number list \<Rightarrow> number" where
  "js_sum xs = foldl js_add (Num 0) xs"

section \<open>Data model\<close>

text \<open>
  The two React contexts of the finance tracker, \<^verbatim>\<open>AuthContext.tsx\<close> and the transaction
  context, as functions on one explicit application state.
\<close>

text \<open>
  \<^verbatim>\<open>interface User { id; name; email; isAdmin }\<close>; an entry of \<^verbatim>\<open>MOCK_USERS\<close> carries a
  \<^verbatim>\<open>password\<close> as well. The field \<^verbatim>\<open>id\<close> is \<open>u_id\<close> here (\<open>id\<close> is the identity
  function of HOL).
\<close>

record User =
  u_id :: string
  name :: string
  email :: string
  isAdmin :: bool

record Account = User +
  password :: string

datatype tx_type = Income | Expense

text \<open>
  \<^verbatim>\<open>interface Transaction\<close>; its \<^verbatim>\<open>id\<close> is \<open>t_id\<close>. The \<^verbatim>\<open>date\<close> of a stored object is a
  string, or \<open>None\<close> when the property holds \<^verbatim>\<open>undefined\<close>, which the spread in
  \<^verbatim>\<open>addTransaction\<close> can bring in.
\<close>

record Transaction =
  t_id :: string
  userId :: string
  amount :: number
  type :: tx_type
  category :: string
  description :: string
  date :: "string option"

text \<open>
  The JSON text of a ledger, as \<^verbatim>\<open>JSON.stringify\<close> writes it: a number that is not finite
  becomes \<^verbatim>\<open>null\<close>, and a property that holds \<^verbatim>\<open>undefined\<close> is left out.
\<close>

datatype json_number = JNumber rat | JNull

record StoredTransaction =
  s_id :: string
  s_userId :: string
  s_amount :: json_number
  s_type :: tx_type
  s_category :: string
  s_description :: string
  s_date :: "string option"

fun JSON_number :: "number \<Rightarrow> json_number" where
  "JSON_number (Num q) = JNumber q"
| "JSON_number PosInfinity = JNull"
| "JSON_number NegInfinity = JNull"
| "JSON_number NaN = JNull"

definition JSON_transaction :: "Transaction \<Rightarrow> StoredTransaction" where
  "JSON_transaction t =
     \<lparr>s_id = t_id t, s_userId = userId t, s_amount = JSON_number (amount t), s_type = type t,
      s_category = category t, s_description = description t, s_date = date t\<rparr>"

definition JSON_stringify :: "Transaction list \<Rightarrow> StoredTransaction list" where
  "JSON_stringify ts = map JSON_transaction ts"



text \<open>
  The state the two providers hold: the module-level \<^verbatim>\<open>MOCK_USERS\<close>, the \<^verbatim>\<open>user\<close> and
  \<^verbatim>\<open>isLoading\<close> hooks of the auth provider, the \<^verbatim>\<open>transactions\<close> hook of the transaction
  provider, and the two entries of \<^verbatim>\<open>localStorage\<close> the code reads and writes
  (\<^verbatim>\<open>'user'\<close> and \<^verbatim>\<open>'transactions'\<close>; \<open>None\<close> is an absent key).

  \<open>transactions\<close> is the array that the provider's last render read from its hook: the
  functions of the context value are closures of that render and see this array.
  \<^verbatim>\<open>setTransactions(v)\<close> does not change it; React keeps \<open>v\<close> (the last one given) for the
  next render, which is \<open>queued_transactions\<close> here.
\<close>

record state =
  MOCK_USERS :: "Account list"
  user :: "User option"
  isLoading :: bool
  ls_user :: "User option"
  transactions :: "Transaction list"
  queued_transactions :: "Transaction list option"
  ls_transactions :: "StoredTransaction list option"

text \<open>The next render of the transaction provider: its hook returns the kept array.\<close>

definition render :: "state \<Rightarrow> state" where
  "render s =
     (case queued_transactions s of
        None \<Rightarrow> s
      | Some ts \<Rightarrow> s\<lparr>transactions := ts, queued_transactions := None\<rparr>)"

section \<open>Strings of numbers\<close>

text \<open>\<^verbatim>\<open>String(n)\<close> and \<^verbatim>\<open>n.toString()\<close> on an integer: its decimal digits.\<close>

definition digit_char :: "nat \<Rightarrow> char" where
  "digit_char d = ''0123456789'' ! d"

function string_of_nat :: "nat \<Rightarrow> string" where
  "string_of_nat n =
     (if n < 10 then [digit_char n]
      else string_of_nat (n div 10) @ [digit_char (n mod 10)])"
  by pat_completeness auto
termination
  by (relation "measure (\<lambda>n. n)") auto

declare string_of_nat.simps [simp del]

definition string_of_int :: "int \<Rightarrow> string" where
  "string_of_int i =
     (if i < 0 then CHR ''-'' # string_of_nat (nat (- i)) else string_of_nat (nat i))"

section \<open>The session manager (AuthContext.tsx)\<close>

text \<open>
  \<^verbatim>\<open>login\<close> and \<^verbatim>\<open>register\<close> return a promise that a timer resolves after one second; the
  model is the state once the timer's callback has run and the providers have rendered
  again, together with the value the promise resolves to. Toasts are presentation and are
  left out.
\<close>

definition login :: "state \<Rightarrow> string \<Rightarrow> string \<Rightarrow> bool \<times> state" where
  "login s email' password' =
     (case find (\<lambda>u. email u = email' \<and> password u = password') (MOCK_USERS s) of
        Some foundUser \<Rightarrow>
          (let userWithoutPassword = User.truncate foundUser
           in (True, s\<lparr>user := Some userWithoutPassword,
                       ls_user := Some userWithoutPassword,
                       isLoading := False\<rparr>))
      | None \<Rightarrow> (False, s\<lparr>isLoading := False\<rparr>))"

definition register :: "state \<Rightarrow> string \<Rightarrow> string \<Rightarrow> string \<Rightarrow> bool \<times> state" where
  "register s name' email' password' =
     (let userExists = list_ex (\<lambda>u. email u = email') (MOCK_USERS s)
      in if userExists then (False, s\<lparr>isLoading := False\<rparr>)
         else
           (let newUser = \<lparr>u_id = string_of_nat (length (MOCK_USERS s) + 1),
                           name = name', email = email', isAdmin = False,
                           password = password'\<rparr>;
                userWithoutPassword = User.truncate newUser
            in (True, s\<lparr>MOCK_USERS := MOCK_USERS s @ [newUser],
                        user := Some userWithoutPassword,
                        ls_user := Some userWithoutPassword,
                        isLoading := False\<rparr>)))"

definition logout :: "state \<Rightarrow> state" where
  "logout s = s\<lparr>user := None, ls_user := None\<rparr>"

text \<open>The initial registry of the module.\<close>

definition INITIAL_USERS :: "Account list" where
  "INITIAL_USERS =
     [\<lparr>u_id = ''1'', name = ''Admin User'', email = ''admin@example.com'',
       isAdmin = True, password = ''admin123''\<rparr>,
      \<lparr>u_id = ''2'', name = ''Test User'', email = ''user@example.com'',
       isAdmin = False, password = ''user123''\<rparr>]"

definition fresh_state :: state where
  "fresh_state = \<lparr>MOCK_USERS = INITIAL_USERS, user = None, isLoading = False,
                  ls_user = None, transactions = [], queued_transactions = None,
                  ls_transactions = None\<rparr>"

section \<open>The JavaScript runtime\<close>

text \<open>
  What the code asks of the \<^verbatim>\<open>Date\<close> object is a parameter of the model: the reading of a
  date string (\<^verbatim>\<open>new Date(s).getTime()\<close>, \<open>None\<close> for \<^verbatim>\<open>NaN\<close>, the Invalid Date), the ISO
  rendering of an instant, the local day of the week of an instant, and the
  \<^verbatim>\<open>en-US\<close> label of its month and year (such as \<^verbatim>\<open>Apr 2023\<close>). An instant is a number of
  milliseconds since the epoch.
\<close>

datatype weekday = Sun | Mon | Tue | Wed | Thu | Fri | Sat

record runtime =
  parseDate :: "string \<Rightarrow> int option"
  toISOString :: "int \<Rightarrow> string"
  getDay :: "int \<Rightarrow> weekday"
  monthYear :: "int \<Rightarrow> string"

text \<open>\<^verbatim>\<open>new Date(v).getTime()\<close> for the value of a \<^verbatim>\<open>date\<close> property: \<^verbatim>\<open>undefined\<close> gives \<^verbatim>\<open>NaN\<close>.\<close>

definition getTime :: "runtime \<Rightarrow> string option \<Rightarrow> int option" where
  "getTime rt v = (case v of None \<Rightarrow> None | Some d \<Rightarrow> parseDate rt d)"

text \<open>\<^verbatim>\<open>toLocaleString('en-US', { weekday: 'short' })\<close>.\<close>

fun weekdayShort :: "weekday \<Rightarrow> string" where
  "weekdayShort Sun = ''Sun''"
| "weekdayShort Mon = ''Mon''"
| "weekdayShort Tue = ''Tue''"
| "weekdayShort Wed = ''Wed''"
| "weekdayShort Thu = ''Thu''"
| "weekdayShort Fri = ''Fri''"
| "weekdayShort Sat = ''Sat''"

text \<open>
  \<^verbatim>\<open>date.setDate(date.getDate() - i)\<close> moves a date back by \<open>i\<close> calendar days, so its day
  of the week moves back by \<open>i\<close>.
\<close>

fun prevDay :: "weekday \<Rightarrow> weekday" where
  "prevDay Sun = Sat"
| "prevDay Mon = Sun"
| "prevDay Tue = Mon"
| "prevDay Wed = Tue"
| "prevDay Thu = Wed"
| "prevDay Fri = Thu"
| "prevDay Sat = Fri"

fun daysBefore :: "nat \<Rightarrow> weekday \<Rightarrow> weekday" where
  "daysBefore 0 d = d"
| "daysBefore (Suc i) d = prevDay (daysBefore i d)"

text \<open>
  \<^verbatim>\<open>Array.prototype.sort(compare)\<close>: a stable sort that puts \<open>a\<close> after \<open>b\<close> when
  \<open>compare a b\<close> is positive and treats a \<^verbatim>\<open>NaN\<close> (\<open>None\<close>) as zero. It is an insertion
  sort here; every stable sort gives the same array when the comparison is consistent.
\<close>

fun sort_insert :: "('a \<Rightarrow> 'a \<Rightarrow> int option) \<Rightarrow> 'a \<Rightarrow> 'a list \<Rightarrow> 'a list" where
  "sort_insert compare x [] = [x]"
| "sort_insert compare x (y # ys) =
     (case compare x y of
        Some v \<Rightarrow> if v > 0 then y # sort_insert compare x ys else x # y # ys
      | None \<Rightarrow> x # y # ys)"

definition js_sort :: "('a \<Rightarrow> 'a \<Rightarrow> int option) \<Rightarrow> 'a list \<Rightarrow> 'a list" where
  "js_sort compare xs = foldr (sort_insert compare) xs []"

text \<open>
  \<^verbatim>\<open>Array.prototype.slice(start, end)\<close>: a negative index counts from the end, and both
  are clamped to the array; \<open>None\<close> is an omitted \<^verbatim>\<open>end\<close>.
\<close>

definition rel_index :: "int \<Rightarrow> nat \<Rightarrow> nat" where
  "rel_index i len = (if i < 0 then nat (max (int len + i) 0) else min (nat i) len)"

definition slice :: "int \<Rightarrow> int option \<Rightarrow> 'a list \<Rightarrow> 'a list" where
  "slice start end xs =
     (let len = length xs;
          k = rel_index start len;
          final = (case end of None \<Rightarrow> len | Some e \<Rightarrow> rel_index e len)
      in take (final - k) (drop k xs))"

text \<open>
  A plain object used as a dictionary, \<^verbatim>\<open>Record<string, V>\<close>: its keys in insertion order
  with their values, which is the order of \<^verbatim>\<open>Object.entries\<close> (no key of the three
  aggregations is an array index). \<^verbatim>\<open>obj[k] = v\<close> overwrites in place or appends;
  reading a property of \<^verbatim>\<open>obj[k]\<close> when the key is absent throws a \<^verbatim>\<open>TypeError\<close>.
\<close>

type_synonym 'v obj = "(string \<times> 'v) list"

datatype js_error = TypeError

fun obj_set :: "'v obj \<Rightarrow> string \<Rightarrow> 'v \<Rightarrow> 'v obj" where
  "obj_set [] k v = [(k, v)]"
| "obj_set ((k', v') # ps) k v =
     (if k' = k then (k, v) # ps else (k', v') # obj_set ps k v)"

definition obj_modify :: "'v obj \<Rightarrow> string \<Rightarrow> ('v \<Rightarrow> 'v) \<Rightarrow> js_error + 'v obj" where
  "obj_modify ob k f =
     (case map_of ob k of None \<Rightarrow> Inl TypeError | Some d \<Rightarrow> Inr (obj_set ob k (f d)))"

text \<open>\<^verbatim>\<open>xs.forEach(...)\<close> with a body that updates a local and may throw.\<close>

fun forEach :: "('s \<Rightarrow> 'a \<Rightarrow> js_error + 's) \<Rightarrow> 'a list \<Rightarrow> 's \<Rightarrow> js_error + 's" where
  "forEach body [] acc = Inr acc"
| "forEach body (x # xs) acc =
     (case body acc x of Inl e \<Rightarrow> Inl e | Inr acc' \<Rightarrow> forEach body xs acc')"

text \<open>\<^verbatim>\<open>s.split(c)\<close> for a one-character separator.\<close>

function split_on :: "char \<Rightarrow> string \<Rightarrow> string list" where
  "split_on c xs =
     takeWhile (\<lambda>x. x \<noteq> c) xs #
       (case dropWhile (\<lambda>x. x \<noteq> c) xs of [] \<Rightarrow> [] | _ # rest \<Rightarrow> split_on c rest)"
  by pat_completeness auto
termination
proof (relation "measure (\<lambda>(c, xs). length xs)")
  show "wf (measure (\<lambda>(c, xs). length xs))"
    by simp
next
  fix c :: char and xs :: string and y rest
  assume "dropWhile (\<lambda>x. x \<noteq> c) xs = y # rest"
  then have "length (y # rest) \<le> length xs"
    by (metis length_dropWhile_le)
  then show "((c, rest), (c, xs)) \<in> measure (\<lambda>(c, xs). length xs)"
    by simp
qed

declare split_on.simps [simp del]

section \<open>The transaction store\<close>

text \<open>
  The argument of \<^verbatim>\<open>addTransaction\<close>. Its declared type asks for \<^verbatim>\<open>amount\<close>, \<^verbatim>\<open>type\<close>,
  \<^verbatim>\<open>category\<close> and \<^verbatim>\<open>description\<close> and allows \<^verbatim>\<open>date\<close>; a value of a wider type, such as a
  \<^verbatim>\<open>Transaction\<close>, is assignable to it, so the object may carry \<^verbatim>\<open>id\<close> and \<^verbatim>\<open>userId\<close> too.
  \<open>None\<close> is a property the object does not have; \<open>in_date = Some None\<close> is a \<^verbatim>\<open>date\<close>
  that is there and holds \<^verbatim>\<open>undefined\<close>.
\<close>

record TransactionInput =
  in_amount :: number
  in_type :: tx_type
  in_category :: string
  in_description :: string
  in_date :: "string option option"
  in_id :: "string option"
  in_userId :: "string option"

text \<open>
  The object literal of \<^verbatim>\<open>addTransaction\<close>: \<^verbatim>\<open>id\<close>, \<^verbatim>\<open>userId\<close> and \<^verbatim>\<open>date\<close> first, then the
  spread \<^verbatim>\<open>...transaction\<close>, whose properties replace those written before it. The clock is
  read twice (\<^verbatim>\<open>Date.now()\<close> for the id, \<^verbatim>\<open>new Date()\<close> for the default date), and
  \<^verbatim>\<open>transaction.date || ...\<close> takes the default for an empty string too.
\<close>

definition newTransaction :: "runtime \<Rightarrow> int \<Rightarrow> int \<Rightarrow> User \<Rightarrow> TransactionInput \<Rightarrow> Transaction" where
  "newTransaction rt now1 now2 u transaction =
     (let id0 = string_of_int now1;
          userId0 = u_id u;
          date0 = (case in_date transaction of
                     Some (Some d) \<Rightarrow> if d = [] then toISOString rt now2 else d
                   | _ \<Rightarrow> toISOString rt now2)
      in \<lparr>t_id = (case in_id transaction of None \<Rightarrow> id0 | Some i \<Rightarrow> i),
          userId = (case in_userId transaction of None \<Rightarrow> userId0 | Some i \<Rightarrow> i),
          amount = in_amount transaction,
          type = in_type transaction,
          category = in_category transaction,
          description = in_description transaction,
          date = (case in_date transaction of None \<Rightarrow> Some date0 | Some v \<Rightarrow> v)\<rparr>)"

text \<open>
  \<^verbatim>\<open>addTransaction\<close> appends to the array of its render, hands the result to
  \<^verbatim>\<open>setTransactions\<close> and writes its JSON text to the storage.
\<close>

definition addTransaction :: "runtime \<Rightarrow> int \<Rightarrow> int \<Rightarrow> state \<Rightarrow> TransactionInput \<Rightarrow> state" where
  "addTransaction rt now1 now2 s transaction =
     (case user s of
        None \<Rightarrow> s
      | Some u \<Rightarrow>
          (let updatedTransactions = transactions s @ [newTransaction rt now1 now2 u transaction]
           in s\<lparr>queued_transactions := Some updatedTransactions,
                ls_transactions := Some (JSON_stringify updatedTransactions)\<rparr>))"

text \<open>The comparison of the three sorts: \<^verbatim>\<open>new Date(b.date).getTime() - new Date(a.date).getTime()\<close>.\<close>

definition byDateDesc :: "runtime \<Rightarrow> Transaction \<Rightarrow> Transaction \<Rightarrow> int option" where
  "byDateDesc rt a b =
     (case getTime rt (date b) of
        None \<Rightarrow> None
      | Some tb \<Rightarrow> (case getTime rt (date a) of None \<Rightarrow> None | Some ta \<Rightarrow> Some (tb - ta)))"

definition getAllTransactions :: "runtime \<Rightarrow> state \<Rightarrow> Transaction list" where
  "getAllTransactions rt s = js_sort (byDateDesc rt) (transactions s)"

definition getUserTransactions :: "runtime \<Rightarrow> state \<Rightarrow> string \<Rightarrow> Transaction list" where
  "getUserTransactions rt s userId' =
     js_sort (byDateDesc rt) (filter (\<lambda>t. userId t = userId') (transactions s))"

text \<open>The parameter \<^verbatim>\<open>limit = 5\<close>: \<open>None\<close> is an omitted argument.\<close>

definition getRecentTransactions :: "runtime \<Rightarrow> state \<Rightarrow> int option \<Rightarrow> Transaction list" where
  "getRecentTransactions rt s limit =
     (case user s of
        None \<Rightarrow> []
      | Some u \<Rightarrow>
          slice 0 (Some (case limit of None \<Rightarrow> 5 | Some n \<Rightarrow> n))
            (js_sort (byDateDesc rt) (filter (\<lambda>t. userId t = u_id u) (transactions s))))"

section \<open>The aggregations\<close>

record totals =
  income :: number
  expense :: number

record month_entry = totals +
  month :: string

record day_entry = totals +
  day :: string

text \<open>The fields \<^verbatim>\<open>amount\<close>, \<^verbatim>\<open>type\<close> and \<^verbatim>\<open>category\<close> of a category bucket carry a prefix \<open>c_\<close>.\<close>

record cat_data =
  c_amount :: number
  c_type :: tx_type

record cat_entry = cat_data +
  c_category :: string

definition monthName :: "runtime \<Rightarrow> Transaction \<Rightarrow> string" where
  "monthName rt transaction =
     (case getTime rt (date transaction) of
        None \<Rightarrow> ''Invalid Date''
      | Some ms \<Rightarrow> monthYear rt ms)"

definition monthly_body :: "runtime \<Rightarrow> totals obj \<Rightarrow> Transaction \<Rightarrow> js_error + totals obj" where
  "monthly_body rt monthlyData transaction =
     (let mName = monthName rt transaction;
          monthlyData1 =
            (if map_of monthlyData mName = None
             then obj_set monthlyData mName \<lparr>income = Num 0, expense = Num 0\<rparr>
             else monthlyData)
      in if type transaction = Income
         then obj_modify monthlyData1 mName
                (\<lambda>d. d\<lparr>income := js_add (income d) (amount transaction)\<rparr>)
         else obj_modify monthlyData1 mName
                (\<lambda>d. d\<lparr>expense := js_add (expense d) (amount transaction)\<rparr>))"

definition getMonthlyData :: "runtime \<Rightarrow> state \<Rightarrow> js_error + month_entry list" where
  "getMonthlyData rt s =
     (case user s of
        None \<Rightarrow> Inr []
      | Some u \<Rightarrow>
          (let userTransactions = filter (\<lambda>t. userId t = u_id u) (transactions s)
           in case forEach (monthly_body rt) userTransactions [] of
                Inl e \<Rightarrow> Inl e
              | Inr monthlyData \<Rightarrow>
                  Inr (slice (- 6) None
                        (map (\<lambda>(m, data). \<lparr>income = income data, expense = expense data, month = m\<rparr>)
                           monthlyData))))"

fun seedDays :: "weekday \<Rightarrow> nat \<Rightarrow> totals obj \<Rightarrow> totals obj" where
  "seedDays today 0 dailyData =
     obj_set dailyData (weekdayShort (daysBefore 0 today)) \<lparr>income = Num 0, expense = Num 0\<rparr>"
| "seedDays today (Suc i) dailyData =
     seedDays today i
       (obj_set dailyData (weekdayShort (daysBefore (Suc i) today))
          \<lparr>income = Num 0, expense = Num 0\<rparr>)"

definition daily_body :: "runtime \<Rightarrow> int \<Rightarrow> totals obj \<Rightarrow> Transaction \<Rightarrow> js_error + totals obj" where
  "daily_body rt today dailyData transaction =
     (case getTime rt (date transaction) of
        None \<Rightarrow> Inr dailyData
      | Some ms \<Rightarrow>
          (let daysDiff = (today - ms) div (1000 * 60 * 60 * 24)
           in if daysDiff < 7
              then (let dayName = weekdayShort (getDay rt ms)
                    in if type transaction = Income
                       then obj_modify dailyData dayName
                              (\<lambda>d. d\<lparr>income := js_add (income d) (amount transaction)\<rparr>)
                       else obj_modify dailyData dayName
                              (\<lambda>d. d\<lparr>expense := js_add (expense d) (amount transaction)\<rparr>))
              else Inr dailyData))"

definition getDailyData :: "runtime \<Rightarrow> int \<Rightarrow> state \<Rightarrow> js_error + day_entry list" where
  "getDailyData rt today s =
     (case user s of
        None \<Rightarrow> Inr []
      | Some u \<Rightarrow>
          (let userTransactions = filter (\<lambda>t. userId t = u_id u) (transactions s);
               seeded = seedDays (getDay rt today) 6 []
           in case forEach (daily_body rt today) userTransactions seeded of
                Inl e \<Rightarrow> Inl e
              | Inr dailyData \<Rightarrow>
                  Inr (map (\<lambda>(d, data). \<lparr>income = income data, expense = expense data, day = d\<rparr>)
                         dailyData)))"

fun type_string :: "tx_type \<Rightarrow> string" where
  "type_string Income = ''income''"
| "type_string Expense = ''expense''"

definition category_key :: "string \<Rightarrow> tx_type \<Rightarrow> string" where
  "category_key cat ty = cat @ ''-'' @ type_string ty"

definition category_body :: "cat_data obj \<Rightarrow> Transaction \<Rightarrow> js_error + cat_data obj" where
  "category_body categoryData transaction =
     (let key = category_key (category transaction) (type transaction);
          categoryData1 =
            (if map_of categoryData key = None
             then obj_set categoryData key \<lparr>c_amount = Num 0, c_type = type transaction\<rparr>
             else categoryData)
      in obj_modify categoryData1 key
           (\<lambda>d. d\<lparr>c_amount := js_add (c_amount d) (amount transaction)\<rparr>))"

definition getCategoryData :: "state \<Rightarrow> js_error + cat_entry list" where
  "getCategoryData s =
     (case user s of
        None \<Rightarrow> Inr []
      | Some u \<Rightarrow>
          (let userTransactions = filter (\<lambda>t. userId t = u_id u) (transactions s)
           in case forEach category_body userTransactions [] of
                Inl e \<Rightarrow> Inl e
              | Inr categoryData \<Rightarrow>
                  Inr (map (\<lambda>(key, data).
                              \<lparr>c_amount = c_amount data, c_type = c_type data,
                               c_category = hd (split_on CHR ''-'' key)\<rparr>)
                         categoryData)))"

section \<open>The sample ledger and a runtime to run it on\<close>

definition SAMPLE_TRANSACTIONS :: "Transaction list" where
  "SAMPLE_TRANSACTIONS =
     [\<lparr>t_id = ''1'', userId = ''1'', amount = Num 50000, type = Income, category = ''Salary'',
       description = ''Monthly salary'', date = Some ''2023-04-01T10:00:00Z''\<rparr>,
      \<lparr>t_id = ''2'', userId = ''1'', amount = Num 5000, type = Expense, category = ''Food'',
       description = ''Grocery shopping'', date = Some ''2023-04-05T15:30:00Z''\<rparr>,
      \<lparr>t_id = ''3'', userId = ''2'', amount = Num 25000, type = Income, category = ''Freelance'',
       description = ''Website development'', date = Some ''2023-04-10T09:15:00Z''\<rparr>,
      \<lparr>t_id = ''4'', userId = ''2'', amount = Num 2500, type = Expense, category = ''Transport'',
       description = ''Fuel'', date = Some ''2023-04-12T18:20:00Z''\<rparr>,
      \<lparr>t_id = ''5'', userId = ''2'', amount = Num 1800, type = Expense,
       category = ''Entertainment'', description = ''Movie and dinner'',
       date = Some ''2023-04-15T20:00:00Z''\<rparr>,
      \<lparr>t_id = ''6'', userId = ''1'', amount = Num 10000, type = Expense, category = ''Rent'',
       description = ''Monthly rent'', date = Some ''2023-04-02T11:00:00Z''\<rparr>]"

text \<open>
  The state once the transaction provider has mounted on an empty storage and rendered:
  the sample ledger, in the hook and in the storage.
\<close>

definition mounted_state :: state where
  "mounted_state =
     fresh_state\<lparr>transactions := SAMPLE_TRANSACTIONS,
                 ls_transactions := Some (JSON_stringify SAMPLE_TRANSACTIONS)\<rparr>"

text \<open>
  A runtime for running the functions on the sample ledger: it reads the six dates of the
  sample (and two more), in UTC, and labels the months of April and May 2023.
\<close>

definition SAMPLE_DATES :: "(string \<times> int) list" where
  "SAMPLE_DATES =
     [(''2023-04-01T10:00:00Z'', 1680343200000),
      (''2023-04-05T15:30:00Z'', 1680708600000),
      (''2023-04-10T09:15:00Z'', 1681118100000),
      (''2023-04-12T18:20:00Z'', 1681323600000),
      (''2023-04-15T20:00:00Z'', 1681588800000),
      (''2023-04-02T11:00:00Z'', 1680433200000),
      (''2023-04-16T12:00:00Z'', 1681646400000),
      (''2023-05-03T08:00:00Z'', 1683100800000)]"

definition weekday_of_index :: "int \<Rightarrow> weekday" where
  "weekday_of_index i =
     (if i = 0 then Sun else if i = 1 then Mon else if i = 2 then Tue
      else if i = 3 then Wed else if i = 4 then Thu else if i = 5 then Fri else Sat)"

definition sample_runtime :: runtime where
  "sample_runtime =
     \<lparr>parseDate = map_of SAMPLE_DATES,
      toISOString = (\<lambda>ms. case find (\<lambda>p. snd p = ms) SAMPLE_DATES of
                            Some p \<Rightarrow> fst p
                          | None \<Rightarrow> ''1970-01-01T00:00:00.000Z''),
      getDay = (\<lambda>ms. weekday_of_index ((ms div 86400000 + 4) mod 7)),
      monthYear = (\<lambda>ms. if 1680307200000 \<le> ms \<and> ms < 1682899200000 then ''Apr 2023''
                         else if 1682899200000 \<le> ms \<and> ms < 1685577600000 then ''May 2023''
                         else ''Jan 1970'')\<rparr>"

text \<open>The mounted state after user 2 has logged in.\<close>

definition sample_state :: state where
  "sample_state = snd (login mounted_state ''user@example.com'' ''user123'')"

text \<open>Two transactions of user 2 with one date, inserted one after the other.\<close>

definition tie_first :: Transaction where
  "tie_first = \<lparr>t_id = ''7'', userId = ''2'', amount = Num 100, type = Expense,
                 category = ''Food'', description = ''inserted first'',
                 date = Some ''2023-04-16T12:00:00Z''\<rparr>"

definition tie_second :: Transaction where
  "tie_second = \<lparr>t_id = ''8'', userId = ''2'', amount = Num 200, type = Expense,
                  category = ''Food'', description = ''inserted second'',
                  date = Some ''2023-04-16T12:00:00Z''\<rparr>"

definition tie_state :: state where
  "tie_state = sample_state\<lparr>transactions := [tie_first, tie_second]\<rparr>"

text \<open>A ledger with one transaction of user 2 whose category has two hyphens.\<close>

definition takeout_state :: state where
  "takeout_state =
     sample_state\<lparr>transactions :=
       [\<lparr>t_id = ''9'', userId = ''2'', amount = Num 300, type = Expense,
         category = ''Take-out-food'', description = ''Dinner'',
         date = Some ''2023-04-16T12:00:00Z''\<rparr>]\<rparr>"

text \<open>
  The form's request of the scenario: an expense on transport, with the four properties
  the form gives and no other.
\<close>

definition fuel_input :: TransactionInput where
  "fuel_input = \<lparr>in_amount = Num 2500, in_type = Expense, in_category = ''Transport'',
                  in_description = ''Fuel'', in_date = None, in_id = None, in_userId = None\<rparr>"


text \<open>A transaction of user 1 handed to \<^verbatim>\<open>addTransaction\<close> as it is.\<close>

definition foreign_input :: TransactionInput where
  "foreign_input = \<lparr>in_amount = Num 5000, in_type = Expense, in_category = ''Food'',
                     in_description = ''Grocery shopping'',
                     in_date = Some (Some ''2023-04-05T15:30:00Z''),
                     in_id = Some ''2'', in_userId = Some ''1''\<rparr>"

definition test_user :: User where
  "test_user = \<lparr>u_id = ''2'', name = ''Test User'', email = ''user@example.com'',
                 isAdmin = False\<rparr>"

text \<open>
  The doubles that the literals \<^verbatim>\<open>0.1\<close>, \<^verbatim>\<open>0.2\<close> and \<^verbatim>\<open>0.3\<close> denote, and a ledger of user 2
  with three expenses on food of these amounts, the later the larger.
\<close>

definition tenth :: number where
  "tenth = Num (3602879701896397 / 2 ^ 55)"

definition two_tenths :: number where
  "two_tenths = Num (3602879701896397 / 2 ^ 54)"

definition three_tenths :: number where
  "three_tenths = Num (5404319552844595 / 2 ^ 54)"

definition rounding_state :: state where
  "rounding_state =
     sample_state\<lparr>transactions :=
       [\<lparr>t_id = ''10'', userId = ''2'', amount = tenth, type = Expense, category = ''Food'',
         description = ''Tea'', date = Some ''2023-04-10T09:15:00Z''\<rparr>,
        \<lparr>t_id = ''11'', userId = ''2'', amount = two_tenths, type = Expense, category = ''Food'',
         description = ''Bread'', date = Some ''2023-04-12T18:20:00Z''\<rparr>,
        \<lparr>t_id = ''12'', userId = ''2'', amount = three_tenths, type = Expense, category = ''Food'',
         description = ''Milk'', date = Some ''2023-04-15T20:00:00Z''\<rparr>]\<rparr>"

text \<open>
  A ledger of user 2 that meets May before April: three expenses of May with the amounts
  above, and an income of April between them.
\<close>

definition months_state :: state where
  "months_state =
     sample_state\<lparr>transactions :=
       [\<lparr>t_id = ''13'', userId = ''2'', amount = tenth, type = Expense, category = ''Food'',
         description = ''Tea'', date = Some ''2023-05-03T08:00:00Z''\<rparr>,
        \<lparr>t_id = ''14'', userId = ''2'', amount = Num 2500, type = Income, category = ''Gift'',
         description = ''Present'', date = Some ''2023-04-12T18:20:00Z''\<rparr>,
        \<lparr>t_id = ''15'', userId = ''2'', amount = two_tenths, type = Expense, category = ''Food'',
         description = ''Bread'', date = Some ''2023-05-03T08:00:00Z''\<rparr>,
        \<lparr>t_id = ''16'', userId = ''2'', amount = three_tenths, type = Expense, category = ''Food'',
         description = ''Milk'', date = Some ''2023-05-03T08:00:00Z''\<rparr>]\<rparr>"

section \<open>What the aggregations are to compute\<close>

text \<open>
  The elements of a list, each once, in the order of their first occurrence.
\<close>

definition first_seen :: "'a list \<Rightarrow> 'a list" where
  "first_seen xs = rev (remdups (rev xs))"

text \<open>
  The monthly summary in the words of the specification: one bucket per month label, in
  first-seen order over the given transactions, with the amounts summed by type, each sum
  a floating-point total over the transactions in their order.
\<close>

definition monthly_buckets_spec :: "runtime \<Rightarrow> Transaction list \<Rightarrow> month_entry list" where
  "monthly_buckets_spec rt txs =
     map (\<lambda>m. \<lparr>income = js_sum (map amount (filter (\<lambda>t. monthName rt t = m \<and> type t = Income) txs)),
                expense = js_sum (map amount (filter (\<lambda>t. monthName rt t = m \<and> type t = Expense) txs)),
                month = m\<rparr>)
       (first_seen (map (monthName rt) txs))"

text \<open>The two sums of the bucket of a month label.\<close>

definition monthly_totals :: "runtime \<Rightarrow> Transaction list \<Rightarrow> string \<Rightarrow> totals" where
  "monthly_totals rt txs m =
     \<lparr>income = js_sum (map amount (filter (\<lambda>t. monthName rt t = m \<and> type t = Income) txs)),
      expense = js_sum (map amount (filter (\<lambda>t. monthName rt t = m \<and> type t = Expense) txs))\<rparr>"

text \<open>The grouping pairs \<open>(category, type)\<close> of the given transactions, in first-seen order.\<close>

definition category_groups_spec :: "Transaction list \<Rightarrow> (string \<times> tx_type) list" where
  "category_groups_spec txs = first_seen (map (\<lambda>t. (category t, type t)) txs)"

text \<open>
  The bucket of a grouping pair: the floating-point total of the amounts of its
  transactions, in their order, and its type.
\<close>

definition category_totals :: "Transaction list \<Rightarrow> string \<times> tx_type \<Rightarrow> cat_data" where
  "category_totals txs p =
     \<lparr>c_amount = js_sum (map amount (filter (\<lambda>t. category t = fst p \<and> type t = snd p) txs)),
      c_type = snd p\<rparr>"

text \<open>The labels of the last seven days, the oldest first.\<close>

definition last_seven_days_spec :: "weekday \<Rightarrow> string list" where
  "last_seven_days_spec today = map (\<lambda>i. weekdayShort (daysBefore i today)) [6, 5, 4, 3, 2, 1, 0]"

section \<open>Registration and login\<close>

text \<open>
  C7: when an account with the given email exists, \<open>register\<close> returns failure, the
  registry is unchanged (so is its size) and the session and its persisted entry are left
  as they were; otherwise the account appended has as id the decimal string of the prior
  count plus one, and is not an admin.
\<close>

theorem register_duplicate_or_append:
  "((\<exists>a \<in> set (MOCK_USERS s). email a = e) \<longrightarrow>
     fst (register s n e p) = False \<and>
     MOCK_USERS (snd (register s n e p)) = MOCK_USERS s \<and>
     length (MOCK_USERS (snd (register s n e p))) = length (MOCK_USERS s) \<and>
     user (snd (register s n e p)) = user s \<and>
     ls_user (snd (register s n e p)) = ls_user s) \<and>
   (\<not> (\<exists>a \<in> set (MOCK_USERS s). email a = e) \<longrightarrow>
     fst (register s n e p) = True \<and>
     MOCK_USERS (snd (register s n e p)) =
       MOCK_USERS s @ [\<lparr>u_id = string_of_nat (length (MOCK_USERS s) + 1), name = n,
                        email = e, isAdmin = False, password = p\<rparr>])"
  by (simp add: register_def list_ex_iff Let_def)

theorem register_duplicate_or_append_witness:
  "(\<exists>a \<in> set (MOCK_USERS fresh_state). email a = ''user@example.com'') \<and>
   fst (register fresh_state ''Eve'' ''user@example.com'' ''pw'') = False \<and>
   length (MOCK_USERS (snd (register fresh_state ''Eve'' ''user@example.com'' ''pw''))) = 2 \<and>
   user (snd (register fresh_state ''Eve'' ''user@example.com'' ''pw'')) = None \<and>
   \<not> (\<exists>a \<in> set (MOCK_USERS fresh_state). email a = ''eve@example.com'') \<and>
   fst (register fresh_state ''Eve'' ''eve@example.com'' ''pw'') = True \<and>
   MOCK_USERS (snd (register fresh_state ''Eve'' ''eve@example.com'' ''pw'')) =
     INITIAL_USERS @ [\<lparr>u_id = ''3'', name = ''Eve'', email = ''eve@example.com'',
                       isAdmin = False, password = ''pw''\<rparr>]"
  using register_duplicate_or_append [of fresh_state "''user@example.com''" "''Eve''" "''pw''"]
    register_duplicate_or_append [of fresh_state "''eve@example.com''" "''Eve''" "''pw''"]
  by (simp add: fresh_state_def INITIAL_USERS_def string_of_nat.simps digit_char_def)

text \<open>
  C8: when no account matches both the email and the password, \<open>login\<close> resolves to
  failure, the session is what it was (unset stays unset) and the persisted session entry
  is neither written nor removed.
\<close>

theorem login_no_match:
  "\<forall>a \<in> set (MOCK_USERS s). \<not> (email a = e \<and> password a = p) \<Longrightarrow>
     fst (login s e p) = False \<and>
     user (snd (login s e p)) = user s \<and>
     ls_user (snd (login s e p)) = ls_user s \<and>
     MOCK_USERS (snd (login s e p)) = MOCK_USERS s"
proof -
  assume "\<forall>a \<in> set (MOCK_USERS s). \<not> (email a = e \<and> password a = p)"
  then have "find (\<lambda>u. email u = e \<and> password u = p) (MOCK_USERS s) = None"
    by (simp add: find_None_iff)
  then show ?thesis
    by (simp add: login_def)
qed

theorem login_no_match_witness:
  "list_all (\<lambda>a. \<not> (email a = ''bad@x.com'' \<and> password a = ''wrong'')) (MOCK_USERS fresh_state) \<and>
   fst (login fresh_state ''bad@x.com'' ''wrong'') = False \<and>
   user (snd (login fresh_state ''bad@x.com'' ''wrong'')) = None \<and>
   ls_user (snd (login fresh_state ''bad@x.com'' ''wrong'')) = None"
proof -
  have h: "\<forall>a \<in> set (MOCK_USERS fresh_state). \<not> (email a = ''bad@x.com'' \<and> password a = ''wrong'')"
    by (simp add: fresh_state_def INITIAL_USERS_def)
  from login_no_match [OF h] h show ?thesis
    by (simp add: fresh_state_def list_all_iff)
qed

section \<open>Sums without rounding\<close>

lemma round_half_even_of_int: "round_half_even (of_int m) = m"
  by (simp add: round_half_even_def)

lemma pow2_nonpos: "e \<le> 0 \<Longrightarrow> pow2 e = 1 / 2 ^ nat (- e)"
  by (cases "e = 0") (simp_all add: pow2_def)

lemma ilog2_of_int: "0 < n \<Longrightarrow> ilog2 (of_int n) = bitlen n - 1"
  by (simp add: ilog2_def)

lemma round64_of_int:
  assumes "0 \<le> n" and "n < 2 ^ 53"
  shows "round64 (of_int n) = Num (of_int n)"
proof (cases "n = 0")
  case True
  then show ?thesis by (simp add: round64_def)
next
  case False
  with assms have pos: "0 < n" by simp
  have b1: "1 \<le> bitlen n"
    using pos by (simp add: bitlen_ge_iff_power)
  have b53: "bitlen n \<le> 53"
    using assms(2) by (simp add: bitlen_le_iff_power)
  define k where "k = nat (53 - bitlen n)"
  have e: "max (ilog2 \<bar>of_int n\<bar> - 52) (- 1074) = bitlen n - 53"
    using pos b1 by (simp add: ilog2_of_int)
  have p: "pow2 (bitlen n - 53) = 1 / 2 ^ k"
    using b53 by (simp add: pow2_nonpos k_def)
  have q: "(of_int n :: rat) / (1 / 2 ^ k) = of_int (n * 2 ^ k)"
    by simp
  have v: "of_int (round_half_even (of_int n / pow2 (bitlen n - 53))) * pow2 (bitlen n - 53) =
      (of_int n :: rat)"
    by (simp only: p q round_half_even_of_int) simp
  have low: "\<not> (971 < bitlen n - 53 \<or>
      (bitlen n - 53 = 971 \<and> 2 ^ 53 \<le> \<bar>round_half_even (of_int n / pow2 (bitlen n - 53))\<bar>))"
    using b53 by simp
  have nz: "(of_int n :: rat) \<noteq> 0"
    using pos by simp
  show ?thesis
    unfolding round64_def Let_def
    by (simp only: nz if_False e v low)
qed

lemma js_add_of_int:
  assumes "0 \<le> a + b" and "a + b < 2 ^ 53"
  shows "js_add (Num (of_int a)) (Num (of_int b)) = Num (of_int (a + b))"
  using round64_of_int [OF assms] by simp

lemma js_sum_Nil: "js_sum [] = Num 0"
  by (simp add: js_sum_def)

lemma js_sum_snoc: "js_sum (xs @ [x]) = js_add (js_sum xs) x"
  by (simp add: js_sum_def)

lemma js_sum_of_int:
  assumes "\<forall>i \<in> set is. 0 \<le> f i" and "sum_list (map f is) < 2 ^ 53"
  shows "js_sum (map (\<lambda>i. Num (of_int (f i))) is) = Num (of_int (sum_list (map f is)))"
  using assms
proof (induction "is" rule: rev_induct)
  case Nil
  then show ?case by (simp add: js_sum_Nil)
next
  case (snoc i "is")
  have nn: "0 \<le> sum_list (map f is)"
    using snoc.prems(1) by (auto intro!: sum_list_nonneg)
  have fi: "0 \<le> f i"
    using snoc.prems(1) by simp
  have "sum_list (map f is) < 2 ^ 53"
    using snoc.prems(2) fi by simp
  with snoc have ih: "js_sum (map (\<lambda>i. Num (of_int (f i))) is) = Num (of_int (sum_list (map f is)))"
    by simp
  have "js_add (Num (of_int (sum_list (map f is)))) (Num (of_int (f i))) =
      Num (of_int (sum_list (map f is) + f i))"
    using nn fi snoc.prems(2) by (intro js_add_of_int) simp_all
  then show ?case
    by (simp add: js_sum_snoc ih)
qed

section \<open>Sorting and slicing\<close>

lemma mset_sort_insert: "mset (sort_insert c x ys) = add_mset x (mset ys)"
  by (induction ys) (auto split: option.splits)

lemma mset_js_sort: "mset (js_sort c xs) = mset xs"
  by (induction xs) (simp_all add: js_sort_def mset_sort_insert)

lemma set_js_sort: "set (js_sort c xs) = set xs"
  by (metis mset_js_sort set_mset_mset)

lemma length_js_sort: "length (js_sort c xs) = length xs"
  by (metis mset_js_sort size_mset)

lemma js_sort_Cons: "js_sort c (x # xs) = sort_insert c x (js_sort c xs)"
  by (simp add: js_sort_def)

lemma byDateDesc_instants:
  "getTime rt (date a) = Some ta \<Longrightarrow> getTime rt (date b) = Some tb \<Longrightarrow>
     byDateDesc rt a b = Some (tb - ta)"
  by (simp add: byDateDesc_def)

lemma sorted_sort_insert:
  assumes "\<forall>t \<in> set (x # ys). getTime rt (date t) = Some (ms t)"
    and "sorted_wrt (\<lambda>a b. ms b \<le> ms a) ys"
  shows "sorted_wrt (\<lambda>a b. ms b \<le> ms a) (sort_insert (byDateDesc rt) x ys)"
  using assms
proof (induction ys)
  case Nil
  then show ?case by simp
next
  case (Cons y ys)
  have c: "byDateDesc rt x y = Some (ms y - ms x)"
    using Cons.prems(1) by (simp add: byDateDesc_instants)
  have s: "set (sort_insert (byDateDesc rt) x ys) = insert x (set ys)"
    by (metis mset_sort_insert set_mset_add_mset_insert set_mset_mset)
  show ?case
  proof (cases "ms y - ms x > 0")
    case True
    have "sorted_wrt (\<lambda>a b. ms b \<le> ms a) (sort_insert (byDateDesc rt) x ys)"
      using Cons by simp
    with True Cons.prems(2) show ?thesis
      by (auto simp: c s)
  next
    case False
    with Cons.prems(2) show ?thesis
      by (auto simp: c)
  qed
qed

lemma sorted_js_sort:
  assumes "\<forall>t \<in> set xs. getTime rt (date t) = Some (ms t)"
  shows "sorted_wrt (\<lambda>a b. ms b \<le> ms a) (js_sort (byDateDesc rt) xs)"
  using assms
proof (induction xs)
  case Nil
  then show ?case by (simp add: js_sort_def)
next
  case (Cons x xs)
  have "sorted_wrt (\<lambda>a b. ms b \<le> ms a) (js_sort (byDateDesc rt) xs)"
    using Cons by simp
  moreover have "\<forall>t \<in> set (x # js_sort (byDateDesc rt) xs). getTime rt (date t) = Some (ms t)"
    using Cons.prems by (simp add: set_js_sort)
  ultimately show ?case
    unfolding js_sort_Cons by (rule sorted_sort_insert [rotated])
qed

lemma filter_sort_insert:
  assumes "\<forall>t \<in> set (x # ys). getTime rt (date t) = Some (ms t)"
  shows "filter (\<lambda>t. ms t = k) (sort_insert (byDateDesc rt) x ys) =
         filter (\<lambda>t. ms t = k) (x # ys)"
  using assms
proof (induction ys)
  case Nil
  then show ?case by simp
next
  case (Cons y ys)
  have c: "byDateDesc rt x y = Some (ms y - ms x)"
    using Cons.prems(1) by (simp add: byDateDesc_instants)
  have "filter (\<lambda>t. ms t = k) (sort_insert (byDateDesc rt) x ys) = filter (\<lambda>t. ms t = k) (x # ys)"
    using Cons by simp
  then show ?case
    by (auto simp: c)
qed

lemma stable_js_sort:
  assumes "\<forall>t \<in> set xs. getTime rt (date t) = Some (ms t)"
  shows "filter (\<lambda>t. ms t = k) (js_sort (byDateDesc rt) xs) = filter (\<lambda>t. ms t = k) xs"
  using assms
proof (induction xs)
  case Nil
  then show ?case by (simp add: js_sort_def)
next
  case (Cons x xs)
  have ih: "filter (\<lambda>t. ms t = k) (js_sort (byDateDesc rt) xs) = filter (\<lambda>t. ms t = k) xs"
    using Cons by simp
  have "\<forall>t \<in> set (x # js_sort (byDateDesc rt) xs). getTime rt (date t) = Some (ms t)"
    using Cons.prems by (simp add: set_js_sort)
  then have "filter (\<lambda>t. ms t = k) (sort_insert (byDateDesc rt) x (js_sort (byDateDesc rt) xs)) =
         filter (\<lambda>t. ms t = k) (x # js_sort (byDateDesc rt) xs)"
    by (rule filter_sort_insert)
  with ih show ?case
    by (simp add: js_sort_Cons)
qed

lemma slice_from_zero: "slice 0 (Some n) xs = take (rel_index n (length xs)) xs"
  by (simp add: slice_def rel_index_def)

lemma slice_last_six: "slice (- 6) None xs = drop (length xs - 6) xs"
  by (auto simp add: slice_def rel_index_def Let_def max_def nat_diff_distrib')

lemma filter_js_sort_mset:
  "mset (filter P (js_sort c xs)) = mset (filter P xs)"
  by (simp add: mset_js_sort)

section \<open>The store\<close>

lemma user_sample_state: "user sample_state = Some test_user"
  by (simp add: sample_state_def login_def mounted_state_def fresh_state_def
      INITIAL_USERS_def test_user_def User.truncate_def Let_def)

lemma transactions_sample_state: "transactions sample_state = SAMPLE_TRANSACTIONS"
  by (simp add: sample_state_def login_def mounted_state_def fresh_state_def
      INITIAL_USERS_def Let_def)


text \<open>
  C5 (as the code has it): \<open>getAllTransactions\<close> returns the whole ledger, latest date
  first, and transactions of one date keep their insertion order (the earlier inserted
  comes first), for a ledger whose dates all parse.
\<close>

theorem all_sorted_desc_stable:
  assumes "\<forall>t \<in> set (transactions s). getTime rt (date t) = Some (ms t)"
  shows "mset (getAllTransactions rt s) = mset (transactions s) \<and>
         sorted_wrt (\<lambda>a b. ms b \<le> ms a) (getAllTransactions rt s) \<and>
         filter (\<lambda>t. ms t = k) (getAllTransactions rt s) =
           filter (\<lambda>t. ms t = k) (transactions s)"
  using assms
  by (simp add: getAllTransactions_def mset_js_sort sorted_js_sort stable_js_sort)

theorem all_sorted_desc_stable_witness:
  "list_all (\<lambda>t. getTime sample_runtime (date t) = Some ((\<lambda>t. 1681646400000) t))
     (transactions tie_state) \<and>
   filter (\<lambda>t. (1681646400000::int) = 1681646400000) (getAllTransactions sample_runtime tie_state) =
     [tie_first, tie_second]"
proof -
  have h: "\<forall>t \<in> set (transactions tie_state).
      getTime sample_runtime (date t) = Some ((\<lambda>t. 1681646400000) t)"
    by (simp add: tie_state_def tie_first_def tie_second_def sample_runtime_def SAMPLE_DATES_def
        getTime_def)
  from all_sorted_desc_stable [OF h, of 1681646400000] h show ?thesis
    by (simp add: tie_state_def list_all_iff)
qed

theorem all_ties_counterexample:
  "date tie_first = date tie_second \<and>
   transactions tie_state = [tie_first, tie_second] \<and>
   getAllTransactions sample_runtime tie_state = [tie_first, tie_second] \<and>
   getAllTransactions sample_runtime tie_state \<noteq> [tie_second, tie_first]"
  by (simp add: getAllTransactions_def tie_state_def tie_first_def tie_second_def js_sort_def
      byDateDesc_def sample_runtime_def SAMPLE_DATES_def getTime_def)

text \<open>
  C3: \<open>getRecentTransactions\<close> is a prefix of \<open>getUserTransactions\<close> of the session's
  user, has at most \<open>n\<close> items for a limit \<open>n \<ge> 0\<close> (at most 5 when the limit is
  omitted), is empty without a session, and runs from the latest date down when the dates
  of the ledger parse.
\<close>

theorem recent_prefix_of_user_transactions:
  "(user s = None \<longrightarrow> getRecentTransactions rt s limit = []) \<and>
   (user s = Some u \<longrightarrow>
      prefix (getRecentTransactions rt s limit) (getUserTransactions rt s (u_id u))) \<and>
   (0 \<le> n \<longrightarrow> length (getRecentTransactions rt s (Some n)) \<le> nat n) \<and>
   length (getRecentTransactions rt s None) \<le> 5 \<and>
   ((\<forall>t \<in> set (transactions s). getTime rt (date t) = Some (ms t)) \<longrightarrow>
      sorted_wrt (\<lambda>a b. ms b \<le> ms a) (getRecentTransactions rt s limit))"
proof -
  have a: "user s = None \<longrightarrow> getRecentTransactions rt s limit = []"
    by (simp add: getRecentTransactions_def)
  have b: "user s = Some u \<longrightarrow>
      prefix (getRecentTransactions rt s limit) (getUserTransactions rt s (u_id u))"
    by (simp add: getRecentTransactions_def getUserTransactions_def slice_from_zero take_is_prefix)
  have c: "0 \<le> n \<longrightarrow> length (getRecentTransactions rt s (Some n)) \<le> nat n"
    by (auto simp: getRecentTransactions_def slice_from_zero rel_index_def split: option.splits)
  have d: "length (getRecentTransactions rt s None) \<le> 5"
    by (auto simp: getRecentTransactions_def slice_from_zero rel_index_def split: option.splits)
  have e: "sorted_wrt (\<lambda>a b. ms b \<le> ms a) (getRecentTransactions rt s limit)"
    if h: "\<forall>t \<in> set (transactions s). getTime rt (date t) = Some (ms t)"
  proof (cases "user s")
    case None
    then show ?thesis
      by (simp add: getRecentTransactions_def)
  next
    case (Some v)
    from h have "\<forall>t \<in> set (filter (\<lambda>t. userId t = u_id v) (transactions s)).
        getTime rt (date t) = Some (ms t)"
      by simp
    then have "sorted_wrt (\<lambda>a b. ms b \<le> ms a)
        (js_sort (byDateDesc rt) (filter (\<lambda>t. userId t = u_id v) (transactions s)))"
      by (rule sorted_js_sort)
    then show ?thesis
      using Some by (simp add: getRecentTransactions_def slice_from_zero sorted_wrt_take)
  qed
  from a b c d e show ?thesis
    by blast
qed

theorem recent_prefix_of_user_transactions_witness:
  "user fresh_state = None \<and> getRecentTransactions sample_runtime fresh_state (Some 2) = [] \<and>
   user sample_state = Some test_user \<and>
   prefix (getRecentTransactions sample_runtime sample_state (Some 2))
     (getUserTransactions sample_runtime sample_state ''2'') \<and>
   (0::int) \<le> 2 \<and> length (getRecentTransactions sample_runtime sample_state (Some 2)) \<le> 2 \<and>
   list_all (\<lambda>t. getTime sample_runtime (date t) = Some (the (getTime sample_runtime (date t))))
     (transactions sample_state) \<and>
   sorted_wrt (\<lambda>a b. the (getTime sample_runtime (date b)) \<le> the (getTime sample_runtime (date a)))
     (getRecentTransactions sample_runtime sample_state (Some 2)) \<and>
   map t_id (getRecentTransactions sample_runtime sample_state (Some 2)) = [''5'', ''4'']"
proof -
  have none: "user fresh_state = None"
    by (simp add: fresh_state_def)
  have dates: "\<forall>t \<in> set (transactions sample_state).
      getTime sample_runtime (date t) = Some (the (getTime sample_runtime (date t)))"
    by (simp add: transactions_sample_state SAMPLE_TRANSACTIONS_def sample_runtime_def
        SAMPLE_DATES_def getTime_def)
  have ids: "map t_id (getRecentTransactions sample_runtime sample_state (Some 2)) = [''5'', ''4'']"
    by code_simp
  note r0 = recent_prefix_of_user_transactions [of fresh_state sample_runtime "Some 2" test_user 2
      "\<lambda>t. the (getTime sample_runtime (date t))"]
  note r1 = recent_prefix_of_user_transactions [of sample_state sample_runtime "Some 2" test_user 2
      "\<lambda>t. the (getTime sample_runtime (date t))"]
  from r0 none have a: "getRecentTransactions sample_runtime fresh_state (Some 2) = []"
    by (simp only: simp_thms)
  from r1 user_sample_state
  have b: "prefix (getRecentTransactions sample_runtime sample_state (Some 2))
     (getUserTransactions sample_runtime sample_state ''2'')"
    by (simp add: test_user_def)
  from r1 have c: "length (getRecentTransactions sample_runtime sample_state (Some 2)) \<le> 2"
    by simp
  from r1 dates
  have d: "sorted_wrt (\<lambda>a b. the (getTime sample_runtime (date b)) \<le> the (getTime sample_runtime (date a)))
     (getRecentTransactions sample_runtime sample_state (Some 2))"
    by (simp only: simp_thms)
  from dates have dates': "list_all (\<lambda>t. getTime sample_runtime (date t) =
      Some (the (getTime sample_runtime (date t)))) (transactions sample_state)"
    by (simp only: list_all_iff)
  have z: "(0::int) \<le> 2"
    by simp
  from none a user_sample_state b z c dates' d ids show ?thesis
    by (intro conjI)
qed



lemma add_on_sample_state:
  "addTransaction sample_runtime now1 now2 sample_state tr =
     sample_state
       \<lparr>queued_transactions :=
          Some (SAMPLE_TRANSACTIONS @ [newTransaction sample_runtime now1 now2 test_user tr]),
        ls_transactions :=
          Some (JSON_stringify
                  (SAMPLE_TRANSACTIONS @ [newTransaction sample_runtime now1 now2 test_user tr]))\<rparr>"
  by (simp add: addTransaction_def user_sample_state transactions_sample_state Let_def)






text \<open>
  C9 (as the code has it): the transaction that \<open>addTransaction\<close> appends has the id of
  the session's user as its \<open>userId\<close> when the argument carries no \<open>userId\<close>, and the
  \<open>userId\<close> of the argument when it carries one, for the spread comes last; without a
  session the state, ledger, queue and storage included, is what it was.
\<close>

theorem add_owner_session_or_argument:
  "(user s = None \<longrightarrow> addTransaction rt now1 now2 s tr = s) \<and>
   (user s = Some u \<longrightarrow>
      transactions (render (addTransaction rt now1 now2 s tr)) =
        transactions s @ [newTransaction rt now1 now2 u tr] \<and>
      userId (last (transactions (render (addTransaction rt now1 now2 s tr)))) =
        (case in_userId tr of None \<Rightarrow> u_id u | Some i \<Rightarrow> i) \<and>
      (in_userId tr = None \<longrightarrow>
         userId (last (transactions (render (addTransaction rt now1 now2 s tr)))) = u_id u))"
  by (simp add: addTransaction_def newTransaction_def render_def Let_def)

theorem add_owner_session_or_argument_witness:
  "user mounted_state = None \<and>
   addTransaction sample_runtime 1681646400000 1681646400000 mounted_state fuel_input =
     mounted_state \<and>
   user sample_state = Some test_user \<and> in_userId fuel_input = None \<and>
   userId (last (transactions (render
     (addTransaction sample_runtime 1681646400000 1681646400000 sample_state fuel_input)))) = ''2''"
proof -
  have none: "user mounted_state = None"
    by (simp add: mounted_state_def fresh_state_def)
  have arg: "in_userId fuel_input = None"
    by (simp add: fuel_input_def)
  from add_owner_session_or_argument [of mounted_state sample_runtime 1681646400000
      1681646400000 fuel_input test_user] none
  have a: "addTransaction sample_runtime 1681646400000 1681646400000 mounted_state fuel_input =
     mounted_state"
    by blast
  from add_owner_session_or_argument [of sample_state sample_runtime 1681646400000 1681646400000
      fuel_input test_user] user_sample_state arg
  have "userId (last (transactions (render
     (addTransaction sample_runtime 1681646400000 1681646400000 sample_state fuel_input)))) =
     u_id test_user"
    by blast
  then have b: "userId (last (transactions (render
     (addTransaction sample_runtime 1681646400000 1681646400000 sample_state fuel_input)))) = ''2''"
    by (simp add: test_user_def)
  from none a user_sample_state arg b show ?thesis
    by (intro conjI)
qed

theorem add_owner_counterexample:
  "user sample_state = Some test_user \<and> u_id test_user = ''2'' \<and>
   userId (last (transactions (render
     (addTransaction sample_runtime 1681646400000 1681646400000 sample_state foreign_input)))) =
     ''1''"
  by (simp add: user_sample_state test_user_def add_on_sample_state render_def newTransaction_def
      foreign_input_def)

section \<open>Objects as dictionaries\<close>

lemma first_seen_snoc:
  "first_seen (xs @ [x]) = (if x \<in> set xs then first_seen xs else first_seen xs @ [x])"
  by (simp add: first_seen_def)

lemma set_first_seen: "set (first_seen xs) = set xs"
  by (simp add: first_seen_def)

lemma distinct_first_seen: "distinct (first_seen xs)"
  by (simp add: first_seen_def)

lemma first_seen_Nil: "first_seen [] = []"
  by (simp add: first_seen_def)

lemma forEach_snoc:
  "forEach body (xs @ [x]) acc =
     (case forEach body xs acc of Inl e \<Rightarrow> Inl e | Inr a \<Rightarrow> body a x)"
  by (induction xs arbitrary: acc) (auto split: sum.splits)

lemma map_of_tab:
  assumes "inj kf"
  shows "map_of (map (\<lambda>q. (kf q, g q)) ps) (kf p) = (if p \<in> set ps then Some (g p) else None)"
  using assms by (induction ps) (auto simp: inj_eq)

lemma obj_set_tab_in:
  assumes "inj kf" and "distinct ps" and "p \<in> set ps"
  shows "obj_set (map (\<lambda>q. (kf q, g q)) ps) (kf p) v =
         map (\<lambda>q. (kf q, if q = p then v else g q)) ps"
  using assms by (induction ps) (auto simp: inj_eq)

lemma obj_set_tab_notin:
  assumes "inj kf" and "p \<notin> set ps"
  shows "obj_set (map (\<lambda>q. (kf q, g q)) ps) (kf p) v = map (\<lambda>q. (kf q, g q)) ps @ [(kf p, v)]"
  using assms by (induction ps) (auto simp: inj_eq)

lemma bucket_step:
  assumes inj: "inj kf" and dist: "distinct ps" and z: "p \<notin> set ps \<longrightarrow> g p = z"
  shows "obj_modify
           (if map_of (map (\<lambda>q. (kf q, g q)) ps) (kf p) = None
            then obj_set (map (\<lambda>q. (kf q, g q)) ps) (kf p) z
            else map (\<lambda>q. (kf q, g q)) ps)
           (kf p) f =
         Inr (map (\<lambda>q. (kf q, if q = p then f (g p) else g q))
                (if p \<in> set ps then ps else ps @ [p]))"
proof (cases "p \<in> set ps")
  case True
  then show ?thesis
    using inj dist by (simp add: map_of_tab obj_modify_def obj_set_tab_in)
next
  case False
  with z have gz: "g p = z" by simp
  have e: "obj_set (map (\<lambda>q. (kf q, g q)) ps) (kf p) z = map (\<lambda>q. (kf q, g q)) (ps @ [p])"
    using inj False by (simp add: obj_set_tab_notin gz)
  have d: "distinct (ps @ [p])"
    using dist False by simp
  have "obj_modify (map (\<lambda>q. (kf q, g q)) (ps @ [p])) (kf p) f =
        Inr (map (\<lambda>q. (kf q, if q = p then f (g p) else g q)) (ps @ [p]))"
  proof -
    have m: "map_of (map (\<lambda>q. (kf q, g q)) (ps @ [p])) (kf p) = Some (g p)"
      using map_of_tab [OF inj, of g "ps @ [p]" p] by simp
    have o: "obj_set (map (\<lambda>q. (kf q, g q)) (ps @ [p])) (kf p) (f (g p)) =
             map (\<lambda>q. (kf q, if q = p then f (g p) else g q)) (ps @ [p])"
      by (rule obj_set_tab_in [OF inj d]) simp
    show ?thesis
      by (simp only: obj_modify_def m o option.case)
  qed
  moreover have "map_of (map (\<lambda>q. (kf q, g q)) ps) (kf p) = None"
    using map_of_tab [OF inj, of g ps p] False by simp
  ultimately show ?thesis
    using False by (simp only: e if_True if_False refl)
qed

section \<open>The monthly summary\<close>

lemma monthly_totals_absent:
  "m \<notin> monthName rt ` set txs \<Longrightarrow> monthly_totals rt txs m = \<lparr>income = Num 0, expense = Num 0\<rparr>"
proof -
  assume "m \<notin> monthName rt ` set txs"
  then have "\<And>P. filter (\<lambda>t. monthName rt t = m \<and> P t) txs = []"
    by (auto simp: filter_empty_conv)
  then show ?thesis
    by (simp add: monthly_totals_def js_sum_Nil)
qed

lemma monthly_totals_snoc:
  "monthly_totals rt (xs @ [x]) m =
     (if m = monthName rt x
      then (if type x = Income
            then (monthly_totals rt xs m)
                   \<lparr>income := js_add (income (monthly_totals rt xs m)) (amount x)\<rparr>
            else (monthly_totals rt xs m)
                   \<lparr>expense := js_add (expense (monthly_totals rt xs m)) (amount x)\<rparr>)
      else monthly_totals rt xs m)"
  by (cases "type x") (auto simp: monthly_totals_def js_sum_snoc)

lemma monthly_forEach:
  "forEach (monthly_body rt) txs [] =
     Inr (map (\<lambda>m. (m, monthly_totals rt txs m)) (first_seen (map (monthName rt) txs)))"
proof (induction txs rule: rev_induct)
  case Nil
  then show ?case by (simp add: first_seen_Nil)
next
  case (snoc x xs)
  let ?ks = "first_seen (map (monthName rt) xs)"
  let ?g = "monthly_totals rt xs"
  let ?k = "monthName rt x"
  have inj: "inj (\<lambda>m::string. m)" by simp
  have z: "?k \<notin> set ?ks \<longrightarrow> ?g ?k = \<lparr>income = Num 0, expense = Num 0\<rparr>"
    by (simp add: set_first_seen monthly_totals_absent)
  have ks: "(if ?k \<in> set ?ks then ?ks else ?ks @ [?k]) = first_seen (map (monthName rt) (xs @ [x]))"
    by (simp add: first_seen_snoc set_first_seen)
  have body: "monthly_body rt (map (\<lambda>m. (m, ?g m)) ?ks) x =
      Inr (map (\<lambda>m. (m, monthly_totals rt (xs @ [x]) m)) (first_seen (map (monthName rt) (xs @ [x]))))"
  proof (cases "type x = Income")
    case True
    have "monthly_body rt (map (\<lambda>m. (m, ?g m)) ?ks) x =
        Inr (map (\<lambda>m. (m, if m = ?k then (?g ?k)\<lparr>income := js_add (income (?g ?k)) (amount x)\<rparr> else ?g m))
               (if ?k \<in> set ?ks then ?ks else ?ks @ [?k]))"
      unfolding monthly_body_def Let_def
      using bucket_step [where kf = "\<lambda>m. m" and ps = ?ks and p = ?k and g = ?g
          and z = "\<lparr>income = Num 0, expense = Num 0\<rparr>"
          and f = "\<lambda>d. d\<lparr>income := js_add (income d) (amount x)\<rparr>", OF inj distinct_first_seen z] True
      by simp
    also have "\<dots> = Inr (map (\<lambda>m. (m, monthly_totals rt (xs @ [x]) m))
               (if ?k \<in> set ?ks then ?ks else ?ks @ [?k]))"
      using True by (simp add: monthly_totals_snoc)
    finally show ?thesis
      by (simp only: ks)
  next
    case False
    have "monthly_body rt (map (\<lambda>m. (m, ?g m)) ?ks) x =
        Inr (map (\<lambda>m. (m, if m = ?k then (?g ?k)\<lparr>expense := js_add (expense (?g ?k)) (amount x)\<rparr> else ?g m))
               (if ?k \<in> set ?ks then ?ks else ?ks @ [?k]))"
      unfolding monthly_body_def Let_def
      using bucket_step [where kf = "\<lambda>m. m" and ps = ?ks and p = ?k and g = ?g
          and z = "\<lparr>income = Num 0, expense = Num 0\<rparr>"
          and f = "\<lambda>d. d\<lparr>expense := js_add (expense d) (amount x)\<rparr>", OF inj distinct_first_seen z] False
      by simp
    also have "\<dots> = Inr (map (\<lambda>m. (m, monthly_totals rt (xs @ [x]) m))
               (if ?k \<in> set ?ks then ?ks else ?ks @ [?k]))"
      using False by (simp add: monthly_totals_snoc)
    finally show ?thesis
      by (simp only: ks)
  qed
  show ?case
    by (simp only: forEach_snoc snoc.IH sum.case body)
qed

text \<open>
  C6: with a session, \<open>getMonthlyData\<close> is the last six of the month buckets of the
  user's transactions (taken in ledger order), the buckets in first-seen order, each with
  its income and its expense as the floating-point totals the loop accumulates from zero;
  the order is the order met, not the calendar's. Without a session it is empty.
\<close>

theorem monthly_last_six_first_seen:
  "(user s = None \<longrightarrow> getMonthlyData rt s = Inr []) \<and>
   (user s = Some u \<longrightarrow>
      getMonthlyData rt s =
        Inr (drop (length (monthly_buckets_spec rt (filter (\<lambda>t. userId t = u_id u) (transactions s))) - 6)
               (monthly_buckets_spec rt (filter (\<lambda>t. userId t = u_id u) (transactions s)))))"
  by (simp add: getMonthlyData_def monthly_forEach slice_last_six monthly_buckets_spec_def
      monthly_totals_def comp_def Let_def)

section \<open>The summary by category\<close>

lemma category_key_eq_iff:
  "category_key c ty = category_key c' ty' \<longleftrightarrow> c = c' \<and> ty = ty'"
proof
  assume eq: "category_key c ty = category_key c' ty'"
  from eq have "rev (category_key c ty) = rev (category_key c' ty')"
    by (rule arg_cong)
  then have r: "rev (type_string ty) @ CHR ''-'' # rev c = rev (type_string ty') @ CHR ''-'' # rev c'"
    by (simp add: category_key_def)
  show "c = c' \<and> ty = ty'"
  proof (cases ty; cases ty')
    assume "ty = Income" "ty' = Income"
    with r show ?thesis by simp
  next
    assume "ty = Income" "ty' = Expense"
    with r show ?thesis by simp
  next
    assume "ty = Expense" "ty' = Income"
    with r show ?thesis by simp
  next
    assume "ty = Expense" "ty' = Expense"
    with r show ?thesis by simp
  qed
next
  assume "c = c' \<and> ty = ty'"
  then show "category_key c ty = category_key c' ty'" by simp
qed

lemma inj_category_key: "inj (\<lambda>p. category_key (fst p) (snd p))"
  by (auto simp: inj_on_def category_key_eq_iff)

lemma category_totals_absent:
  "p \<notin> (\<lambda>t. (category t, type t)) ` set txs \<Longrightarrow>
     category_totals txs p = \<lparr>c_amount = Num 0, c_type = snd p\<rparr>"
proof -
  assume "p \<notin> (\<lambda>t. (category t, type t)) ` set txs"
  then have "filter (\<lambda>t. category t = fst p \<and> type t = snd p) txs = []"
    by (auto simp: filter_empty_conv image_iff)
  then show ?thesis
    by (simp add: category_totals_def js_sum_Nil)
qed

lemma category_totals_snoc:
  "category_totals (xs @ [x]) p =
     (if p = (category x, type x)
      then (category_totals xs p)
             \<lparr>c_amount := js_add (c_amount (category_totals xs p)) (amount x)\<rparr>
      else category_totals xs p)"
  by (cases p) (auto simp: category_totals_def js_sum_snoc)

lemma category_forEach:
  "forEach category_body txs [] =
     Inr (map (\<lambda>p. (category_key (fst p) (snd p), category_totals txs p))
            (category_groups_spec txs))"
proof (induction txs rule: rev_induct)
  case Nil
  then show ?case by (simp add: category_groups_spec_def first_seen_Nil)
next
  case (snoc x xs)
  let ?ks = "category_groups_spec xs"
  let ?g = "category_totals xs"
  let ?p = "(category x, type x)"
  have z: "?p \<notin> set ?ks \<longrightarrow> ?g ?p = \<lparr>c_amount = Num 0, c_type = type x\<rparr>"
    using category_totals_absent [of ?p xs]
    by (simp add: category_groups_spec_def set_first_seen)
  have d: "distinct ?ks"
    by (simp add: category_groups_spec_def distinct_first_seen)
  have ks: "(if ?p \<in> set ?ks then ?ks else ?ks @ [?p]) = category_groups_spec (xs @ [x])"
    by (simp add: category_groups_spec_def first_seen_snoc set_first_seen)
  have "category_body (map (\<lambda>p. (category_key (fst p) (snd p), ?g p)) ?ks) x =
      Inr (map (\<lambda>q. (category_key (fst q) (snd q),
                      if q = ?p then (?g ?p)\<lparr>c_amount := js_add (c_amount (?g ?p)) (amount x)\<rparr> else ?g q))
             (if ?p \<in> set ?ks then ?ks else ?ks @ [?p]))"
    unfolding category_body_def Let_def
    using bucket_step [where kf = "\<lambda>p. category_key (fst p) (snd p)" and ps = ?ks and p = ?p
        and g = ?g and z = "\<lparr>c_amount = Num 0, c_type = type x\<rparr>"
        and f = "\<lambda>d. d\<lparr>c_amount := js_add (c_amount d) (amount x)\<rparr>", OF inj_category_key d z]
    by (simp cong del: if_weak_cong)
  also have "\<dots> = Inr (map (\<lambda>q. (category_key (fst q) (snd q), category_totals (xs @ [x]) q))
             (if ?p \<in> set ?ks then ?ks else ?ks @ [?p]))"
    by (simp add: category_totals_snoc)
  finally have body: "category_body (map (\<lambda>p. (category_key (fst p) (snd p), ?g p)) ?ks) x =
      Inr (map (\<lambda>q. (category_key (fst q) (snd q), category_totals (xs @ [x]) q))
             (category_groups_spec (xs @ [x])))"
    by (simp only: ks)
  show ?case
    by (simp only: forEach_snoc snoc.IH sum.case body)
qed

lemma getCategoryData_groups:
  assumes "user s = Some u"
  shows "getCategoryData s =
     Inr (map (\<lambda>p. \<lparr>c_amount = c_amount (category_totals (filter (\<lambda>t. userId t = u_id u) (transactions s)) p),
                     c_type = snd p,
                     c_category = hd (split_on CHR ''-'' (category_key (fst p) (snd p)))\<rparr>)
            (category_groups_spec (filter (\<lambda>t. userId t = u_id u) (transactions s))))"
  using assms
  by (simp add: getCategoryData_def category_forEach Let_def comp_def category_totals_def)

lemma sum_list_delta:
  fixes c :: int
  assumes "distinct ks"
  shows "sum_list (map (\<lambda>k. if k = a then c else 0) ks) = (if a \<in> set ks then c else 0)"
  using assms by (induction ks) auto

lemma sum_list_groups:
  fixes f :: "'a \<Rightarrow> int"
  assumes "distinct ks" and "key ` set xs \<subseteq> set ks"
  shows "sum_list (map (\<lambda>k. sum_list (map f (filter (\<lambda>t. key t = k) xs))) ks) = sum_list (map f xs)"
  using assms(2)
proof (induction xs)
  case Nil
  then show ?case by simp
next
  case (Cons x xs)
  have "sum_list (map (\<lambda>k. sum_list (map f (filter (\<lambda>t. key t = k) (x # xs)))) ks) =
        sum_list (map (\<lambda>k. (if k = key x then f x else 0) +
                            sum_list (map f (filter (\<lambda>t. key t = k) xs))) ks)"
    by (rule arg_cong [where f = sum_list]) auto
  also have "\<dots> = sum_list (map (\<lambda>k. if k = key x then f x else 0) ks) +
        sum_list (map (\<lambda>k. sum_list (map f (filter (\<lambda>t. key t = k) xs))) ks)"
    by (simp add: sum_list_addf)
  also have "\<dots> = f x + sum_list (map f xs)"
    using Cons assms(1) by (simp add: sum_list_delta)
  finally show ?case by simp
qed

lemma sum_list_js_sort:
  fixes f :: "'a \<Rightarrow> int"
  shows "sum_list (map f (filter P (js_sort c xs))) = sum_list (map f (filter P xs))"
proof -
  have "mset (map f (filter P (js_sort c xs))) = mset (map f (filter P xs))"
    by (simp add: mset_js_sort)
  then show ?thesis
    by (metis sum_mset_sum_list)
qed

lemma sum_list_filter_le:
  fixes f :: "'a \<Rightarrow> int"
  assumes "\<forall>x \<in> set xs. 0 \<le> f x"
  shows "sum_list (map f (filter P xs)) \<le> sum_list (map f xs)"
  using assms by (induction xs) auto

lemma js_sum_amounts_of_int:
  assumes "\<forall>t \<in> set xs. 0 \<le> n t \<and> amount t = Num (of_int (n t))"
    and "sum_list (map n xs) < 2 ^ 53"
  shows "js_sum (map amount xs) = Num (of_int (sum_list (map n xs)))"
proof -
  have m: "map amount xs = map (\<lambda>t. Num (of_int (n t))) xs"
    using assms(1) by simp
  have j: "js_sum (map (\<lambda>t. Num (of_int (n t))) xs) = Num (of_int (sum_list (map n xs)))"
    using assms by (intro js_sum_of_int) simp_all
  show ?thesis
    unfolding m by (rule j)
qed

lemma hd_split_on: "hd (split_on c xs) = takeWhile (\<lambda>x. x \<noteq> c) xs"
  by (subst split_on.simps) simp

lemma takeWhile_up_to: "a \<notin> set xs \<Longrightarrow> takeWhile (\<lambda>x. x \<noteq> a) (xs @ a # ys) = xs"
  by (induction xs) auto

lemma takeWhile_absent: "a \<notin> set xs \<Longrightarrow> takeWhile (\<lambda>x. x \<noteq> a) xs = xs"
  by (induction xs) auto

lemma first_segment_of_key:
  "hd (split_on CHR ''-'' (category_key c ty)) = takeWhile (\<lambda>x. x \<noteq> CHR ''-'') c"
proof -
  have h: "hd (split_on CHR ''-'' (category_key c ty)) =
      takeWhile (\<lambda>x. x \<noteq> CHR ''-'') (c @ CHR ''-'' # type_string ty)"
    by (simp add: hd_split_on category_key_def)
  show ?thesis
  proof (cases "CHR ''-'' \<in> set c")
    case True
    then have "takeWhile (\<lambda>x. x \<noteq> CHR ''-'') (c @ CHR ''-'' # type_string ty) =
        takeWhile (\<lambda>x. x \<noteq> CHR ''-'') c"
      by (simp add: takeWhile_append1)
    with h show ?thesis
      by (simp only:)
  next
    case False
    then have a: "takeWhile (\<lambda>x. x \<noteq> CHR ''-'') (c @ CHR ''-'' # type_string ty) = c"
      by (rule takeWhile_up_to)
    from False have b: "takeWhile (\<lambda>x. x \<noteq> CHR ''-'') c = c"
      by (rule takeWhile_absent)
    show ?thesis
      by (simp only: h a b)
  qed
qed

text \<open>
  C2 (as the code has it): with a session, the buckets of \<open>getCategoryData\<close> are the
  pairs (category, type) of the user's transactions, each pair once, two pairs sharing a
  grouping key only when they are one pair, so that income and expense of one category
  are two buckets. The amount of a bucket is the floating-point total, accumulated from
  zero in ledger order, of the amounts of the user's transactions with that pair, and its
  type is the pair's. When the amounts are whole numbers that are not negative and add up
  to less than \<open>2 ^ 53\<close>, no addition rounds: the amount of a bucket is then also the
  total over \<open>getUserTransactions\<close> of the transactions with its pair, and the amounts
  of the buckets add up to the total of \<open>getUserTransactions\<close>.
\<close>

theorem category_sums_in_ledger_order:
  assumes "user s = Some u"
  shows "\<exists>es. getCategoryData s = Inr es \<and>
           map (\<lambda>e. (c_amount e, c_type e)) es =
             map (\<lambda>p. (js_sum (map amount (filter (\<lambda>t. category t = fst p \<and> type t = snd p)
                                           (filter (\<lambda>t. userId t = u_id u) (transactions s)))),
                        snd p))
               (category_groups_spec (filter (\<lambda>t. userId t = u_id u) (transactions s))) \<and>
           distinct (category_groups_spec (filter (\<lambda>t. userId t = u_id u) (transactions s))) \<and>
           set (category_groups_spec (filter (\<lambda>t. userId t = u_id u) (transactions s))) =
             (\<lambda>t. (category t, type t)) ` set (getUserTransactions rt s (u_id u)) \<and>
           (category_key c ty = category_key c' ty' \<longleftrightarrow> c = c' \<and> ty = ty') \<and>
           category_key c Income \<noteq> category_key c Expense \<and>
           ((\<forall>t \<in> set (transactions s).
                userId t = u_id u \<longrightarrow> 0 \<le> n t \<and> amount t = Num (of_int (n t))) \<and>
            sum_list (map n (filter (\<lambda>t. userId t = u_id u) (transactions s))) < 2 ^ 53 \<longrightarrow>
              map (\<lambda>e. (c_amount e, c_type e)) es =
                map (\<lambda>p. (js_sum (map amount (filter (\<lambda>t. category t = fst p \<and> type t = snd p)
                                              (getUserTransactions rt s (u_id u)))), snd p))
                  (category_groups_spec (filter (\<lambda>t. userId t = u_id u) (transactions s))) \<and>
              js_sum (map c_amount es) =
                js_sum (map amount (getUserTransactions rt s (u_id u))))"
proof -
  let ?own = "filter (\<lambda>t. userId t = u_id u) (transactions s)"
  let ?sorted = "getUserTransactions rt s (u_id u)"
  let ?gs = "category_groups_spec ?own"
  let ?P = "\<lambda>p t. category t = fst p \<and> type t = snd p"
  let ?es = "map (\<lambda>p. \<lparr>c_amount = c_amount (category_totals ?own p), c_type = snd p,
                        c_category = hd (split_on CHR ''-'' (category_key (fst p) (snd p)))\<rparr>) ?gs"
  have sorted: "?sorted = js_sort (byDateDesc rt) ?own"
    by (simp add: getUserTransactions_def)
  have r: "getCategoryData s = Inr ?es"
    using assms by (rule getCategoryData_groups)
  have a: "map (\<lambda>e. (c_amount e, c_type e)) ?es =
      map (\<lambda>p. (js_sum (map amount (filter (?P p) ?own)), snd p)) ?gs"
    by (simp add: comp_def category_totals_def)
  have d: "distinct ?gs"
    by (simp add: category_groups_spec_def distinct_first_seen)
  have st: "set ?gs = (\<lambda>t. (category t, type t)) ` set ?sorted"
    by (simp add: category_groups_spec_def set_first_seen getUserTransactions_def set_js_sort)
  have k: "category_key c ty = category_key c' ty' \<longleftrightarrow> c = c' \<and> ty = ty'"
    by (rule category_key_eq_iff)
  have k2: "category_key c Income \<noteq> category_key c Expense"
    by (simp add: category_key_eq_iff)
  have exact: "map (\<lambda>e. (c_amount e, c_type e)) ?es =
        map (\<lambda>p. (js_sum (map amount (filter (?P p) ?sorted)), snd p)) ?gs \<and>
      js_sum (map c_amount ?es) = js_sum (map amount ?sorted)"
    if h: "(\<forall>t \<in> set (transactions s).
                userId t = u_id u \<longrightarrow> 0 \<le> n t \<and> amount t = Num (of_int (n t))) \<and>
            sum_list (map n ?own) < 2 ^ 53"
  proof -
    from h have ints: "\<forall>t \<in> set ?own. 0 \<le> n t \<and> amount t = Num (of_int (n t))"
      by simp
    from h have small: "sum_list (map n ?own) < 2 ^ 53"
      by simp
    have nn: "\<forall>t \<in> set ?own. 0 \<le> n t"
      using ints by simp
    have bucket: "js_sum (map amount (filter Q ?own)) = Num (of_int (sum_list (map n (filter Q ?own))))"
      for Q
    proof (rule js_sum_amounts_of_int)
      show "\<forall>t \<in> set (filter Q ?own). 0 \<le> n t \<and> amount t = Num (of_int (n t))"
        using ints by simp
      have "sum_list (map n (filter Q ?own)) \<le> sum_list (map n ?own)"
        using nn by (rule sum_list_filter_le)
      with small show "sum_list (map n (filter Q ?own)) < 2 ^ 53"
        by simp
    qed
    have bucket': "js_sum (map amount (filter Q ?sorted)) =
        Num (of_int (sum_list (map n (filter Q ?own))))" for Q
    proof -
      have "js_sum (map amount (filter Q ?sorted)) =
          Num (of_int (sum_list (map n (filter Q ?sorted))))"
      proof (rule js_sum_amounts_of_int)
        show "\<forall>t \<in> set (filter Q ?sorted). 0 \<le> n t \<and> amount t = Num (of_int (n t))"
          using ints by (simp add: sorted set_js_sort)
        have "sum_list (map n (filter Q ?sorted)) = sum_list (map n (filter Q ?own))"
          by (simp only: sorted sum_list_js_sort)
        also have "\<dots> \<le> sum_list (map n ?own)"
          using nn by (rule sum_list_filter_le)
        finally show "sum_list (map n (filter Q ?sorted)) < 2 ^ 53"
          using small by simp
      qed
      then show ?thesis
        by (simp only: sorted sum_list_js_sort)
    qed
    have e1: "map (\<lambda>e. (c_amount e, c_type e)) ?es =
        map (\<lambda>p. (js_sum (map amount (filter (?P p) ?sorted)), snd p)) ?gs"
      by (simp only: a bucket bucket')
    have conv: "(\<lambda>t. (category t, type t) = p) = ?P p" for p
      by (auto simp: fun_eq_iff)
    have groups: "sum_list (map (\<lambda>p. sum_list (map n (filter (?P p) ?own))) ?gs) =
        sum_list (map n ?own)"
      using sum_list_groups [OF d, of "\<lambda>t. (category t, type t)" ?own n]
      by (simp add: category_groups_spec_def set_first_seen conv)
    have "map c_amount ?es = map (\<lambda>p. js_sum (map amount (filter (?P p) ?own))) ?gs"
      by (simp add: comp_def category_totals_def)
    then have amounts: "map c_amount ?es =
        map (\<lambda>p. Num (of_int (sum_list (map n (filter (?P p) ?own))))) ?gs"
      by (simp only: bucket)
    have "js_sum (map (\<lambda>p. Num (of_int (sum_list (map n (filter (?P p) ?own))))) ?gs) =
        Num (of_int (sum_list (map (\<lambda>p. sum_list (map n (filter (?P p) ?own))) ?gs)))"
    proof (rule js_sum_of_int)
      show "\<forall>p \<in> set ?gs. 0 \<le> sum_list (map n (filter (?P p) ?own))"
        using nn by (auto intro!: sum_list_nonneg)
      from groups small
      show "sum_list (map (\<lambda>p. sum_list (map n (filter (?P p) ?own))) ?gs) < 2 ^ 53"
        by simp
    qed
    then have total: "js_sum (map c_amount ?es) = Num (of_int (sum_list (map n ?own)))"
      by (simp only: amounts groups)
    have "js_sum (map amount ?sorted) = Num (of_int (sum_list (map n ?own)))"
      using bucket' [of "\<lambda>t. True"] by simp
    with total have e2: "js_sum (map c_amount ?es) = js_sum (map amount ?sorted)"
      by simp
    from e1 e2 show ?thesis
      by (rule conjI)
  qed
  show ?thesis
  proof (intro exI conjI impI)
    show "getCategoryData s = Inr ?es" by (rule r)
    show "map (\<lambda>e. (c_amount e, c_type e)) ?es =
        map (\<lambda>p. (js_sum (map amount (filter (?P p) ?own)), snd p)) ?gs" by (rule a)
    show "distinct ?gs" by (rule d)
    show "set ?gs = (\<lambda>t. (category t, type t)) ` set ?sorted" by (rule st)
    show "category_key c ty = category_key c' ty' \<longleftrightarrow> c = c' \<and> ty = ty'" by (rule k)
    show "category_key c Income \<noteq> category_key c Expense" by (rule k2)
  next
    assume h: "(\<forall>t \<in> set (transactions s).
                userId t = u_id u \<longrightarrow> 0 \<le> n t \<and> amount t = Num (of_int (n t))) \<and>
            sum_list (map n ?own) < 2 ^ 53"
    from exact [OF h] show "map (\<lambda>e. (c_amount e, c_type e)) ?es =
        map (\<lambda>p. (js_sum (map amount (filter (?P p) ?sorted)), snd p)) ?gs"
      by (rule conjunct1)
    from exact [OF h] show "js_sum (map c_amount ?es) = js_sum (map amount ?sorted)"
      by (rule conjunct2)
  qed
qed

text \<open>
  C10: the category a bucket of \<open>getCategoryData\<close> reports is the first segment of its
  grouping key split at hyphens, that is the category up to its first hyphen: every
  transaction of the user has a bucket of its type that reports its category cut there,
  which is the category itself when it has no hyphen.
\<close>

theorem category_reported_up_to_hyphen:
  assumes "user s = Some u"
  shows "\<exists>es. getCategoryData s = Inr es \<and>
           map c_category es =
             map (\<lambda>p. hd (split_on CHR ''-'' (category_key (fst p) (snd p))))
               (category_groups_spec (filter (\<lambda>t. userId t = u_id u) (transactions s))) \<and>
           map c_category es =
             map (\<lambda>p. takeWhile (\<lambda>x. x \<noteq> CHR ''-'') (fst p))
               (category_groups_spec (filter (\<lambda>t. userId t = u_id u) (transactions s))) \<and>
           (\<forall>t \<in> set (transactions s). userId t = u_id u \<longrightarrow>
              (\<exists>e \<in> set es. c_type e = type t \<and>
                 c_category e = takeWhile (\<lambda>x. x \<noteq> CHR ''-'') (category t))) \<and>
           (CHR ''-'' \<notin> set c \<longrightarrow> hd (split_on CHR ''-'' (category_key c ty)) = c) \<and>
           (CHR ''-'' \<notin> set pre \<longrightarrow>
              hd (split_on CHR ''-'' (category_key (pre @ CHR ''-'' # rest) ty)) = pre)"
proof -
  let ?own = "filter (\<lambda>t. userId t = u_id u) (transactions s)"
  let ?gs = "category_groups_spec ?own"
  let ?es = "map (\<lambda>p. \<lparr>c_amount = c_amount (category_totals ?own p), c_type = snd p,
                        c_category = hd (split_on CHR ''-'' (category_key (fst p) (snd p)))\<rparr>) ?gs"
  have r: "getCategoryData s = Inr ?es"
    using assms by (rule getCategoryData_groups)
  have a: "map c_category ?es = map (\<lambda>p. hd (split_on CHR ''-'' (category_key (fst p) (snd p)))) ?gs"
    by (simp add: comp_def)
  have b: "map c_category ?es = map (\<lambda>p. takeWhile (\<lambda>x. x \<noteq> CHR ''-'') (fst p)) ?gs"
    by (simp add: comp_def first_segment_of_key)
  have e: "\<forall>t \<in> set (transactions s). userId t = u_id u \<longrightarrow>
      (\<exists>e \<in> set ?es. c_type e = type t \<and> c_category e = takeWhile (\<lambda>x. x \<noteq> CHR ''-'') (category t))"
  proof (intro ballI impI)
    fix t
    assume "t \<in> set (transactions s)" and "userId t = u_id u"
    then have "(category t, type t) \<in> set ?gs"
      by (simp add: category_groups_spec_def set_first_seen image_iff) blast
    then have "\<lparr>c_amount = c_amount (category_totals ?own (category t, type t)), c_type = type t,
        c_category = hd (split_on CHR ''-'' (category_key (category t) (type t)))\<rparr> \<in> set ?es"
      by (simp add: image_iff) force
    then show "\<exists>e \<in> set ?es. c_type e = type t \<and>
        c_category e = takeWhile (\<lambda>x. x \<noteq> CHR ''-'') (category t)"
      by (rule rev_bexI) (simp add: first_segment_of_key)
  qed
  have f: "CHR ''-'' \<notin> set c \<longrightarrow> hd (split_on CHR ''-'' (category_key c ty)) = c"
    by (simp add: first_segment_of_key takeWhile_absent)
  have g: "CHR ''-'' \<notin> set pre \<longrightarrow>
      hd (split_on CHR ''-'' (category_key (pre @ CHR ''-'' # rest) ty)) = pre"
    by (simp add: first_segment_of_key takeWhile_up_to)
  from r a b e f g show ?thesis
    by blast
qed

section \<open>The daily summary\<close>

lemma seedDays_six:
  "seedDays today 6 [] =
     map (\<lambda>l. (l, \<lparr>income = Num 0, expense = Num 0\<rparr>)) (last_seven_days_spec today)"
  by (cases today) (simp_all add: last_seven_days_spec_def eval_nat_numeral)

lemma distinct_last_seven_days: "distinct (last_seven_days_spec today)"
  by (cases today) (simp_all add: last_seven_days_spec_def eval_nat_numeral)

lemma length_last_seven_days: "length (last_seven_days_spec today) = 7"
  by (simp add: last_seven_days_spec_def)

lemma weekdayShort_in_last_seven_days: "weekdayShort d \<in> set (last_seven_days_spec today)"
  by (cases today; cases d) (simp_all add: last_seven_days_spec_def eval_nat_numeral)

lemma keys_obj_set:
  "k \<in> fst ` set ob \<Longrightarrow> map fst (obj_set ob k v) = map fst ob"
  by (induction ob) force+

lemma obj_modify_present:
  assumes "k \<in> fst ` set ob"
  shows "\<exists>ob'. obj_modify ob k f = Inr ob' \<and> map fst ob' = map fst ob"
proof -
  from assms obtain d where "map_of ob k = Some d"
    by (metis map_of_eq_None_iff not_None_eq)
  then show ?thesis
    using assms by (simp add: obj_modify_def keys_obj_set)
qed

lemma daily_body_keys:
  assumes "map fst dd = last_seven_days_spec d0"
  shows "\<exists>dd'. daily_body rt today dd t = Inr dd' \<and> map fst dd' = map fst dd"
proof -
  have "\<And>d. weekdayShort d \<in> fst ` set dd"
    using assms weekdayShort_in_last_seven_days [of _ d0] by (metis set_map)
  then show ?thesis
    by (auto simp: daily_body_def Let_def obj_modify_present split: option.splits)
qed

lemma forEach_daily_keys:
  assumes "map fst dd = last_seven_days_spec d0"
  shows "\<exists>dd'. forEach (daily_body rt today) txs dd = Inr dd' \<and> map fst dd' = map fst dd"
  using assms
proof (induction txs arbitrary: dd)
  case Nil
  then show ?case by simp
next
  case (Cons t txs)
  from daily_body_keys [OF Cons.prems] obtain dd1 where
    b: "daily_body rt today dd t = Inr dd1" and k: "map fst dd1 = map fst dd"
    by blast
  from k Cons.prems have "map fst dd1 = last_seven_days_spec d0"
    by simp
  from Cons.IH [OF this] k b show ?case
    by simp
qed

lemma forEach_unchanged:
  assumes "\<forall>x \<in> set xs. body acc x = Inr acc"
  shows "forEach body xs acc = Inr acc"
  using assms by (induction xs) simp_all

text \<open>
  C4: with a session, \<open>getDailyData\<close> returns seven entries, whose labels are those of the
  seven days that end today, the oldest first and each once, whatever the ledger holds;
  when no transaction of the user falls in the window, every entry keeps the zero income
  and zero expense it was seeded with.
\<close>

theorem daily_seven_entries:
  assumes "user s = Some u"
  shows "\<exists>es. getDailyData rt today s = Inr es \<and>
           length es = 7 \<and>
           map day es = last_seven_days_spec (getDay rt today) \<and>
           distinct (map day es) \<and>
           ((\<forall>t \<in> set (transactions s). userId t = u_id u \<longrightarrow>
               (\<forall>ms. getTime rt (date t) = Some ms \<longrightarrow>
                  \<not> (today - ms) div (1000 * 60 * 60 * 24) < 7)) \<longrightarrow>
            (\<forall>e \<in> set es. income e = Num 0 \<and> expense e = Num 0))"
proof -
  let ?own = "filter (\<lambda>t. userId t = u_id u) (transactions s)"
  let ?seed = "seedDays (getDay rt today) 6 []"
  let ?out = "map (\<lambda>(d, data). \<lparr>income = income data, expense = expense data, day = d\<rparr>)"
  have seedk: "map fst ?seed = last_seven_days_spec (getDay rt today)"
    by (simp add: seedDays_six comp_def)
  from forEach_daily_keys [OF seedk] obtain dd where
    run: "forEach (daily_body rt today) ?own ?seed = Inr dd" and keys: "map fst dd = map fst ?seed"
    by blast
  have res: "getDailyData rt today s = Inr (?out dd)"
    using assms run by (simp add: getDailyData_def Let_def)
  have days: "map day (?out dd) = last_seven_days_spec (getDay rt today)"
    using keys seedk by (simp add: comp_def case_prod_beta)
  have len: "length (?out dd) = 7"
    using arg_cong [OF days, of length] by (simp add: length_last_seven_days)
  have dist: "distinct (map day (?out dd))"
    by (simp only: days distinct_last_seven_days)
  have zero: "\<forall>e \<in> set (?out dd). income e = Num 0 \<and> expense e = Num 0"
    if none: "\<forall>t \<in> set (transactions s). userId t = u_id u \<longrightarrow>
               (\<forall>ms. getTime rt (date t) = Some ms \<longrightarrow>
                  \<not> (today - ms) div (1000 * 60 * 60 * 24) < 7)"
  proof -
    have "\<forall>t \<in> set ?own. daily_body rt today ?seed t = Inr ?seed"
      using none by (auto simp: daily_body_def Let_def split: option.splits)
    then have "forEach (daily_body rt today) ?own ?seed = Inr ?seed"
      by (rule forEach_unchanged)
    with run have "dd = ?seed"
      by simp
    then show ?thesis
      by (auto simp: seedDays_six)
  qed
  show ?thesis
  proof (intro exI conjI impI)
    show "getDailyData rt today s = Inr (?out dd)" by (rule res)
    show "length (?out dd) = 7" by (rule len)
    show "map day (?out dd) = last_seven_days_spec (getDay rt today)" by (rule days)
    show "distinct (map day (?out dd))" by (rule dist)
    show "\<forall>e \<in> set (?out dd). income e = Num 0 \<and> expense e = Num 0"
      if "\<forall>t \<in> set (transactions s). userId t = u_id u \<longrightarrow>
               (\<forall>ms. getTime rt (date t) = Some ms \<longrightarrow>
                  \<not> (today - ms) div (1000 * 60 * 60 * 24) < 7)"
      using that by (rule zero)
  qed
qed

theorem daily_seven_entries_witness:
  "user sample_state = Some test_user \<and>
   (\<exists>es. getDailyData sample_runtime 1681646400000 sample_state = Inr es \<and> length es = 7 \<and>
      map day es = [''Mon'', ''Tue'', ''Wed'', ''Thu'', ''Fri'', ''Sat'', ''Sun'']) \<and>
   list_all (\<lambda>t. userId t = u_id test_user \<longrightarrow>
      (\<forall>ms. getTime sample_runtime (date t) = Some ms \<longrightarrow>
         \<not> (1700000000000 - ms) div (1000 * 60 * 60 * 24) < 7)) (transactions sample_state) \<and>
   (\<exists>es. getDailyData sample_runtime 1700000000000 sample_state = Inr es \<and> length es = 7 \<and>
      (\<forall>e \<in> set es. income e = Num 0 \<and> expense e = Num 0))"
proof -
  have labels: "last_seven_days_spec (getDay sample_runtime 1681646400000) =
      [''Mon'', ''Tue'', ''Wed'', ''Thu'', ''Fri'', ''Sat'', ''Sun'']"
    by code_simp
  have old: "\<forall>t \<in> set (transactions sample_state). userId t = u_id test_user \<longrightarrow>
      (\<forall>ms. getTime sample_runtime (date t) = Some ms \<longrightarrow>
         \<not> (1700000000000 - ms) div (1000 * 60 * 60 * 24) < 7)"
    by (simp add: transactions_sample_state SAMPLE_TRANSACTIONS_def test_user_def
        sample_runtime_def SAMPLE_DATES_def getTime_def)
  from daily_seven_entries [OF user_sample_state, of sample_runtime 1681646400000]
  obtain es where e: "getDailyData sample_runtime 1681646400000 sample_state = Inr es"
    "length es = 7" "map day es = last_seven_days_spec (getDay sample_runtime 1681646400000)"
    by (elim exE conjE)
  from daily_seven_entries [OF user_sample_state, of sample_runtime 1700000000000]
  obtain es' where e': "getDailyData sample_runtime 1700000000000 sample_state = Inr es'"
    "length es' = 7"
    "(\<forall>t \<in> set (transactions sample_state). userId t = u_id test_user \<longrightarrow>
      (\<forall>ms. getTime sample_runtime (date t) = Some ms \<longrightarrow>
         \<not> (1700000000000 - ms) div (1000 * 60 * 60 * 24) < 7)) \<longrightarrow>
     (\<forall>e \<in> set es'. income e = Num 0 \<and> expense e = Num 0)"
    by (elim exE conjE)
  from e'(3) old have z: "\<forall>e \<in> set es'. income e = Num 0 \<and> expense e = Num 0"
    by (rule mp)
  show ?thesis
  proof (intro conjI)
    show "user sample_state = Some test_user" by (rule user_sample_state)
    show "\<exists>es. getDailyData sample_runtime 1681646400000 sample_state = Inr es \<and> length es = 7 \<and>
      map day es = [''Mon'', ''Tue'', ''Wed'', ''Thu'', ''Fri'', ''Sat'', ''Sun'']"
      using e unfolding labels by (intro exI [of _ es] conjI)
    show "list_all (\<lambda>t. userId t = u_id test_user \<longrightarrow>
      (\<forall>ms. getTime sample_runtime (date t) = Some ms \<longrightarrow>
         \<not> (1700000000000 - ms) div (1000 * 60 * 60 * 24) < 7)) (transactions sample_state)"
      using old by (simp only: list_all_iff)
    show "\<exists>es. getDailyData sample_runtime 1700000000000 sample_state = Inr es \<and> length es = 7 \<and>
      (\<forall>e \<in> set es. income e = Num 0 \<and> expense e = Num 0)"
      using e'(1,2) z by (intro exI [of _ es'] conjI)
  qed
qed

section \<open>Runs on the sample ledger\<close>

theorem category_reported_up_to_hyphen_witness:
  "user takeout_state = Some test_user \<and>
   (\<exists>es. getCategoryData takeout_state = Inr es \<and> map c_category es = [''Take'']) \<and>
   CHR ''-'' \<notin> set ''Food'' \<and>
   hd (split_on CHR ''-'' (category_key ''Food'' Expense)) = ''Food'' \<and>
   CHR ''-'' \<notin> set ''Take'' \<and>
   hd (split_on CHR ''-'' (category_key (''Take'' @ CHR ''-'' # ''out-food'') Expense)) = ''Take''"
proof -
  have u: "user takeout_state = Some test_user"
    by (simp add: takeout_state_def user_sample_state)
  have v: "map (\<lambda>p. takeWhile (\<lambda>x. x \<noteq> CHR ''-'') (fst p))
             (category_groups_spec (filter (\<lambda>t. userId t = u_id test_user) (transactions takeout_state))) =
           [''Take'']"
    by code_simp
  have h1: "CHR ''-'' \<notin> set ''Food''" by simp
  have h2: "CHR ''-'' \<notin> set ''Take''" by simp
  from category_reported_up_to_hyphen [OF u, of "''Food''" Expense "''Take''" "''out-food''"]
  obtain es where e: "getCategoryData takeout_state = Inr es"
    "map c_category es =
       map (\<lambda>p. takeWhile (\<lambda>x. x \<noteq> CHR ''-'') (fst p))
         (category_groups_spec (filter (\<lambda>t. userId t = u_id test_user) (transactions takeout_state)))"
    "CHR ''-'' \<notin> set ''Food'' \<longrightarrow> hd (split_on CHR ''-'' (category_key ''Food'' Expense)) = ''Food''"
    "CHR ''-'' \<notin> set ''Take'' \<longrightarrow>
       hd (split_on CHR ''-'' (category_key (''Take'' @ CHR ''-'' # ''out-food'') Expense)) = ''Take''"
    by (elim exE conjE)
  from e(3) h1 have f1: "hd (split_on CHR ''-'' (category_key ''Food'' Expense)) = ''Food''"
    by (rule mp)
  from e(4) h2 have f2:
    "hd (split_on CHR ''-'' (category_key (''Take'' @ CHR ''-'' # ''out-food'') Expense)) = ''Take''"
    by (rule mp)
  have ex: "\<exists>es. getCategoryData takeout_state = Inr es \<and> map c_category es = [''Take'']"
    using e(1,2) unfolding v by (intro exI [of _ es] conjI)
  from u ex h1 f1 h2 f2 show ?thesis
    by (intro conjI)
qed

theorem category_sums_in_ledger_order_witness:
  "user sample_state = Some test_user \<and>
   list_all (\<lambda>t. userId t = u_id test_user \<longrightarrow>
       0 \<le> (case amount t of Num q \<Rightarrow> \<lfloor>q\<rfloor> | _ \<Rightarrow> 0) \<and>
       amount t = Num (of_int (case amount t of Num q \<Rightarrow> \<lfloor>q\<rfloor> | _ \<Rightarrow> 0)))
     (transactions sample_state) \<and>
   sum_list (map (\<lambda>t. case amount t of Num q \<Rightarrow> \<lfloor>q\<rfloor> | _ \<Rightarrow> 0)
     (filter (\<lambda>t. userId t = u_id test_user) (transactions sample_state))) < 2 ^ 53 \<and>
   (\<exists>es. getCategoryData sample_state = Inr es \<and>
      map (\<lambda>e. (c_amount e, c_type e)) es =
        [(Num 25000, Income), (Num 2500, Expense), (Num 1800, Expense)] \<and>
      js_sum (map c_amount es) = Num 29300 \<and>
      js_sum (map c_amount es) =
        js_sum (map amount (getUserTransactions sample_runtime sample_state (u_id test_user))))"
proof -
  let ?n = "\<lambda>t. case amount t of Num q \<Rightarrow> \<lfloor>q\<rfloor> | _ \<Rightarrow> 0"
  have ints: "\<forall>t \<in> set (transactions sample_state).
      userId t = u_id test_user \<longrightarrow> 0 \<le> ?n t \<and> amount t = Num (of_int (?n t))"
    by (simp add: transactions_sample_state SAMPLE_TRANSACTIONS_def test_user_def)
  have small: "sum_list (map ?n (filter (\<lambda>t. userId t = u_id test_user)
      (transactions sample_state))) < 2 ^ 53"
    by (simp add: transactions_sample_state SAMPLE_TRANSACTIONS_def test_user_def)
  have v: "map (\<lambda>p. (js_sum (map amount (filter (\<lambda>t. category t = fst p \<and> type t = snd p)
                 (filter (\<lambda>t. userId t = u_id test_user) (transactions sample_state)))), snd p))
             (category_groups_spec (filter (\<lambda>t. userId t = u_id test_user) (transactions sample_state))) =
           [(Num 25000, Income), (Num 2500, Expense), (Num 1800, Expense)]"
    by code_simp
  have w: "js_sum (map amount (getUserTransactions sample_runtime sample_state (u_id test_user))) =
      Num 29300"
    by code_simp
  from category_sums_in_ledger_order [where rt = sample_runtime and c = "''Food''" and ty = Income
      and c' = "''Food''" and ty' = Expense and n = ?n, OF user_sample_state]
  obtain es where e: "getCategoryData sample_state = Inr es"
    "map (\<lambda>e. (c_amount e, c_type e)) es =
       map (\<lambda>p. (js_sum (map amount (filter (\<lambda>t. category t = fst p \<and> type t = snd p)
                 (filter (\<lambda>t. userId t = u_id test_user) (transactions sample_state)))), snd p))
         (category_groups_spec (filter (\<lambda>t. userId t = u_id test_user) (transactions sample_state)))"
    "(\<forall>t \<in> set (transactions sample_state).
         userId t = u_id test_user \<longrightarrow> 0 \<le> ?n t \<and> amount t = Num (of_int (?n t))) \<and>
     sum_list (map ?n (filter (\<lambda>t. userId t = u_id test_user) (transactions sample_state))) < 2 ^ 53 \<longrightarrow>
       map (\<lambda>e. (c_amount e, c_type e)) es =
         map (\<lambda>p. (js_sum (map amount (filter (\<lambda>t. category t = fst p \<and> type t = snd p)
                 (getUserTransactions sample_runtime sample_state (u_id test_user)))), snd p))
           (category_groups_spec (filter (\<lambda>t. userId t = u_id test_user) (transactions sample_state))) \<and>
       js_sum (map c_amount es) =
         js_sum (map amount (getUserTransactions sample_runtime sample_state (u_id test_user)))"
    by (elim exE conjE)
  from e(3) ints small
  have tot: "js_sum (map c_amount es) =
      js_sum (map amount (getUserTransactions sample_runtime sample_state (u_id test_user)))"
    by blast
  from ints have ints': "list_all (\<lambda>t. userId t = u_id test_user \<longrightarrow>
       0 \<le> ?n t \<and> amount t = Num (of_int (?n t))) (transactions sample_state)"
    by (simp only: list_all_iff)
  have "\<exists>es. getCategoryData sample_state = Inr es \<and>
      map (\<lambda>e. (c_amount e, c_type e)) es =
        [(Num 25000, Income), (Num 2500, Expense), (Num 1800, Expense)] \<and>
      js_sum (map c_amount es) = Num 29300 \<and>
      js_sum (map c_amount es) =
        js_sum (map amount (getUserTransactions sample_runtime sample_state (u_id test_user)))"
  proof (intro exI [of _ es] conjI)
    show "getCategoryData sample_state = Inr es" by (rule e(1))
    show "map (\<lambda>e. (c_amount e, c_type e)) es =
        [(Num 25000, Income), (Num 2500, Expense), (Num 1800, Expense)]"
      using e(2) by (simp only: v)
    show "js_sum (map c_amount es) = Num 29300"
      using tot by (simp only: w)
    show "js_sum (map c_amount es) =
        js_sum (map amount (getUserTransactions sample_runtime sample_state (u_id test_user)))"
      by (rule tot)
  qed
  with user_sample_state ints' small show ?thesis
    by (intro conjI)
qed




theorem category_sums_rounding_counterexample:
  "user rounding_state = Some test_user \<and>
   getCategoryData rounding_state =
     Inr [\<lparr>c_amount = Num (1351079888211149 / 2 ^ 51), c_type = Expense,
           c_category = ''Food''\<rparr>] \<and>
   js_sum (map amount (filter (\<lambda>t. category t = ''Food'' \<and> type t = Expense)
     (getUserTransactions sample_runtime rounding_state (u_id test_user)))) =
     Num (5404319552844595 / 2 ^ 53) \<and>
   js_sum [Num (1351079888211149 / 2 ^ 51)] = Num (1351079888211149 / 2 ^ 51) \<and>
   js_sum (map amount (getUserTransactions sample_runtime rounding_state (u_id test_user))) =
     Num (5404319552844595 / 2 ^ 53) \<and>
   Num (1351079888211149 / 2 ^ 51) \<noteq> Num (5404319552844595 / 2 ^ 53)"
  by code_simp



lemma js_add_rounds:
  "js_add tenth two_tenths = Num (1351079888211149 / 2 ^ 52)"
  "js_add (Num (2 ^ 53)) (Num 1) = Num (2 ^ 53)"
  "js_add (Num (2 ^ 53)) (Num 3) = Num (2 ^ 53 + 4)"
  "js_add (Num 50000) (Num 5000) = Num 55000"
  by code_simp+

theorem monthly_last_six_first_seen_witness:
  "user fresh_state = None \<and> getMonthlyData sample_runtime fresh_state = Inr [] \<and>
   user sample_state = Some test_user \<and>
   getMonthlyData sample_runtime sample_state =
     Inr [\<lparr>income = Num 25000, expense = Num 4300, month = ''Apr 2023''\<rparr>] \<and>
   user months_state = Some test_user \<and>
   getMonthlyData sample_runtime months_state =
     Inr [\<lparr>income = Num 0, expense = Num (1351079888211149 / 2 ^ 51), month = ''May 2023''\<rparr>,
          \<lparr>income = Num 2500, expense = Num 0, month = ''Apr 2023''\<rparr>]"
proof -
  have none: "user fresh_state = None"
    by (simp add: fresh_state_def)
  have um: "user months_state = Some test_user"
    by (simp add: months_state_def user_sample_state)
  have v: "drop (length (monthly_buckets_spec sample_runtime
                     (filter (\<lambda>t. userId t = u_id test_user) (transactions sample_state))) - 6)
             (monthly_buckets_spec sample_runtime
                (filter (\<lambda>t. userId t = u_id test_user) (transactions sample_state))) =
           [\<lparr>income = Num 25000, expense = Num 4300, month = ''Apr 2023''\<rparr>]"
    by code_simp
  have w: "drop (length (monthly_buckets_spec sample_runtime
                     (filter (\<lambda>t. userId t = u_id test_user) (transactions months_state))) - 6)
             (monthly_buckets_spec sample_runtime
                (filter (\<lambda>t. userId t = u_id test_user) (transactions months_state))) =
           [\<lparr>income = Num 0, expense = Num (1351079888211149 / 2 ^ 51), month = ''May 2023''\<rparr>,
            \<lparr>income = Num 2500, expense = Num 0, month = ''Apr 2023''\<rparr>]"
    by code_simp
  from monthly_last_six_first_seen [of fresh_state sample_runtime test_user] none
  have a: "getMonthlyData sample_runtime fresh_state = Inr []"
    by (simp only: simp_thms)
  from monthly_last_six_first_seen [of sample_state sample_runtime test_user] user_sample_state
  have b: "getMonthlyData sample_runtime sample_state =
     Inr [\<lparr>income = Num 25000, expense = Num 4300, month = ''Apr 2023''\<rparr>]"
    by (simp only: simp_thms v)
  from monthly_last_six_first_seen [of months_state sample_runtime test_user] um
  have c: "getMonthlyData sample_runtime months_state =
     Inr [\<lparr>income = Num 0, expense = Num (1351079888211149 / 2 ^ 51), month = ''May 2023''\<rparr>,
          \<lparr>income = Num 2500, expense = Num 0, month = ''Apr 2023''\<rparr>]"
    by (simp only: simp_thms w)
  from none a user_sample_state b um c show ?thesis
    by (intro conjI)
qed

end
